theory Spec2Isabelle
  imports Complex_Main "HOL-Library.Word" "HOL-Library.Multiset"
begin

section \<open>Characters and the C library's classification functions\<close>

text \<open>
  A \<open>std::string\<close> is a sequence of bytes: \<^typ>\<open>string\<close>. The program never
  calls \<open>setlocale\<close>, so \<open>std::isalpha\<close>, \<open>std::tolower\<close> and the stream's
  whitespace test work in the "C" locale: the letters are \<open>A..Z\<close> (65..90) and
  \<open>a..z\<close> (97..122), the whitespace characters are space, \<open>\t \n \v \f \r\<close>
  (32 and 9..13). The source casts every \<open>char\<close> to \<open>unsigned char\<close> first, which
  is the value \<^term>\<open>of_char c\<close> in 0..255.
\<close>

definition isalpha :: "char \<Rightarrow> bool" where
  "isalpha c = (let n = (of_char c :: nat) in (65 \<le> n \<and> n \<le> 90) \<or> (97 \<le> n \<and> n \<le> 122))"

definition tolower :: "char \<Rightarrow> char" where
  "tolower c = (let n = (of_char c :: nat) in if 65 \<le> n \<and> n \<le> 90 then char_of (n + 32) else c)"

definition isspace :: "char \<Rightarrow> bool" where
  "isspace c = (let n = (of_char c :: nat) in n = 32 \<or> (9 \<le> n \<and> n \<le> 13))"

section \<open>normalizeWord\<close>

text \<open>
  \<open>WordCounterSequential::normalizeWord\<close> and \<open>WordCounterParallel::normalizeWord\<close> have
  the same body: a loop over the characters of \<open>word\<close> that appends the lowercased
  character to \<open>normalized\<close> when it is alphabetic.
\<close>

fun normalize_loop :: "string \<Rightarrow> string \<Rightarrow> string" where
  "normalize_loop normalized [] = normalized"
| "normalize_loop normalized (c # cs) =
     normalize_loop (if isalpha c then normalized @ [tolower c] else normalized) cs"

definition normalizeWord :: "string \<Rightarrow> string" where
  "normalizeWord word = normalize_loop [] word"

definition isValidChar :: "char \<Rightarrow> bool" where
  "isValidChar c = isalpha c"

section \<open>Reading whitespace-separated words from a stream\<close>

text \<open>
  \<open>stream >> word\<close> skips leading whitespace and then extracts characters up to the next
  whitespace character or the end of the stream. It fails, and the \<open>while\<close> loop ends,
  when no character could be extracted. The stream is its unread rest.
\<close>

definition read_word :: "string \<Rightarrow> (string \<times> string) option" where
  "read_word stream =
     (let s = dropWhile isspace stream
      in if s = [] then None
         else Some (takeWhile (\<lambda>c. \<not> isspace c) s, dropWhile (\<lambda>c. \<not> isspace c) s))"

lemma read_word_shorter: "read_word stream = Some (word, rest) \<Longrightarrow> length rest < length stream"
proof -
  assume a: "read_word stream = Some (word, rest)"
  let ?s = "dropWhile isspace stream"
  from a have ne: "?s \<noteq> []" and r: "rest = dropWhile (\<lambda>c. \<not> isspace c) ?s"
    by (auto simp: read_word_def Let_def split: if_splits)
  from ne have "\<not> isspace (hd ?s)"
    by (metis hd_dropWhile)
  with ne have "rest = dropWhile (\<lambda>c. \<not> isspace c) (tl ?s)"
    unfolding r by (cases ?s) auto
  then have "length rest \<le> length (tl ?s)"
    using length_dropWhile_le [of "\<lambda>c. \<not> isspace c" "tl ?s"] by simp
  also from ne have "\<dots> < length ?s"
    by (cases ?s) auto
  also have "\<dots> \<le> length stream"
    by (rule length_dropWhile_le)
  finally show ?thesis .
qed

text \<open>The loop \<open>while (stream >> word) rawWords.push_back(word);\<close> of the parallel counter.\<close>

function read_words :: "string \<Rightarrow> string list" where
  "read_words stream =
     (case read_word stream of
        None \<Rightarrow> []
      | Some (word, rest) \<Rightarrow> word # read_words rest)"
  by pat_completeness auto
termination
  by (relation "measure length") (auto dest: read_word_shorter)

section \<open>The frequency map\<close>

text \<open>
  \<open>WordMap\<close> is \<open>std::unordered_map<std::string, unsigned long long>\<close>. It is modelled
  by the list of its entries, keys distinct, in the order an iteration visits them; the
  counts are 64-bit words, so \<open>++\<close> and \<open>+=\<close> wrap around. \<open>size()\<close> is the length
  of the list. The order of iteration of an unordered map is unspecified, so nothing
  below relies on it: two maps are the same map when \<^term>\<open>map_of\<close> agrees on them.
\<close>

type_synonym u64 = "64 word"
type_synonym WordMap = "(string \<times> u64) list"

text \<open>
  \<open>m[key] += v\<close>: \<open>operator[]\<close> inserts the key with the count 0 when it is absent,
  then the count is increased. \<open>m[key]++\<close> is \<open>subscript_add m key 1\<close>.
\<close>

fun subscript_add :: "WordMap \<Rightarrow> string \<Rightarrow> u64 \<Rightarrow> WordMap" where
  "subscript_add [] key v = [(key, 0 + v)]"
| "subscript_add ((k, c) # m) key v =
     (if k = key then (k, c + v) # m else (k, c) # subscript_add m key v)"

section \<open>The counter objects\<close>

text \<open>
  The fields of \<open>WordCounterSequential\<close>; \<open>WordCounterParallel\<close> has the same three and
  \<open>syncMethod\<close>. \<open>executionTime\<close> is a \<open>double\<close> of milliseconds, taken from two
  readings of the clock, which are inputs of the model. \<open>uniqueWords\<close> is a \<open>size_t\<close>
  that only ever receives the size of a container.
\<close>

datatype SyncMethod = Critical | Atomic | Reduction

record WordCounterSequential =
  executionTime :: real
  totalWords :: u64
  uniqueWords :: nat

record WordCounterParallel = WordCounterSequential +
  syncMethod :: SyncMethod

definition new_WordCounterSequential :: WordCounterSequential where
  "new_WordCounterSequential = \<lparr>executionTime = 0, totalWords = 0, uniqueWords = 0\<rparr>"

definition new_WordCounterParallel :: "SyncMethod \<Rightarrow> WordCounterParallel" where
  "new_WordCounterParallel mode =
     \<lparr>executionTime = 0, totalWords = 0, uniqueWords = 0, syncMethod = mode\<rparr>"

definition getExecutionTime :: "'a WordCounterSequential_scheme \<Rightarrow> real" where
  "getExecutionTime this = executionTime this"

definition getTotalWords :: "'a WordCounterSequential_scheme \<Rightarrow> u64" where
  "getTotalWords this = totalWords this"

definition getUniqueWords :: "'a WordCounterSequential_scheme \<Rightarrow> nat" where
  "getUniqueWords this = uniqueWords this"

section \<open>The sequential counter\<close>

text \<open>
  The loop of \<open>WordCounterSequential::countWords\<close> and \<open>countWordsFromFile\<close>: each word
  read from the stream is normalized, and counted when the result is not empty. The
  loop state is \<open>wordFreq\<close> and the field \<open>totalWords\<close>.
\<close>

function seq_loop :: "string \<Rightarrow> WordMap \<times> u64 \<Rightarrow> WordMap \<times> u64" where
  "seq_loop stream (wordFreq, total_words) =
     (case read_word stream of
        None \<Rightarrow> (wordFreq, total_words)
      | Some (word, rest) \<Rightarrow>
          (let normalized = normalizeWord word
           in if normalized \<noteq> []
              then seq_loop rest (subscript_add wordFreq normalized 1, total_words + 1)
              else seq_loop rest (wordFreq, total_words)))"
  by pat_completeness auto
termination
  by (relation "measure (\<lambda>(stream, _). length stream)") (auto dest: read_word_shorter)

text \<open>\<open>startTime\<close> and \<open>endTime\<close> are the two readings of the clock, in milliseconds.\<close>

definition seq_countWords ::
  "real \<Rightarrow> real \<Rightarrow> WordCounterSequential \<Rightarrow> string \<Rightarrow> WordMap \<times> WordCounterSequential" where
  "seq_countWords startTime endTime this text =
     (let (wordFreq, total_words) = seq_loop text ([], 0)
      in (wordFreq, this\<lparr>totalWords := total_words, uniqueWords := length wordFreq,
                         executionTime := endTime - startTime\<rparr>))"

section \<open>Files and the console\<close>

text \<open>
  What the program sees of its environment: the files that can be opened for reading,
  with their contents; which paths can be opened for writing; and the text written so
  far to \<open>std::cout\<close> and \<open>std::cerr\<close>.
\<close>

record io =
  files :: "string \<rightharpoonup> string"
  writable :: "string \<Rightarrow> bool"
  cout :: string
  cerr :: string

definition endl :: string where
  "endl = [CHR 0x0A]"

text \<open>
  \<open>WordCounterSequential::countWordsFromFile\<close>. When the file cannot be opened the
  function writes the message, sets \<open>executionTime\<close> and returns an empty map; the
  assignment \<open>totalWords = 0\<close> comes after that return.
\<close>

definition seq_countWordsFromFile ::
  "real \<Rightarrow> real \<Rightarrow> WordCounterSequential \<Rightarrow> io \<Rightarrow> string
     \<Rightarrow> WordMap \<times> WordCounterSequential \<times> io" where
  "seq_countWordsFromFile startTime endTime this w filename =
     (case files w filename of
        None \<Rightarrow>
          ([], this\<lparr>executionTime := 0\<rparr>,
           w\<lparr>cerr := cerr w @ ''Error: Cannot open file '' @ filename @ endl\<rparr>)
      | Some content \<Rightarrow>
          (let (wordFreq, total_words) = seq_loop content ([], 0)
           in (wordFreq,
               this\<lparr>totalWords := total_words, uniqueWords := length wordFreq,
                    executionTime := endTime - startTime\<rparr>,
               w)))"

section \<open>getTopWords\<close>

text \<open>
  \<open>static_cast<int>(size)\<close> of a \<open>size_t\<close>: the low 32 bits, read as a signed
  number (the conversion every mainstream compiler performs, and the only one allowed
  since C++20).
\<close>

definition size_to_int :: "nat \<Rightarrow> int" where
  "size_to_int n = sint (word_of_nat n :: 32 word)"

text \<open>
  The same function in both classes. \<open>std::sort\<close> is library code whose result on
  entries of equal count is unspecified, so the sort is a parameter \<open>std_sort\<close>; what
  the standard promises of it is \<open>sort_post\<close>: the result is a rearrangement of the
  input in which no later entry has a greater count than an earlier one.
  \<open>sort_desc\<close> is one such sort.
\<close>

definition getTopWords :: "(WordMap \<Rightarrow> WordMap) \<Rightarrow> WordMap \<Rightarrow> int \<Rightarrow> (string \<times> u64) list" where
  "getTopWords std_sort wordMap n =
     (let wordVec = std_sort wordMap
      in if n > 0 \<and> n < size_to_int (length wordVec) then take (nat n) wordVec else wordVec)"

definition descending :: "(string \<times> u64) list \<Rightarrow> bool" where
  "descending wordVec = sorted_wrt (\<lambda>a b. \<not> snd b > snd a) wordVec"

definition sort_post :: "(WordMap \<Rightarrow> WordMap) \<Rightarrow> WordMap \<Rightarrow> bool" where
  "sort_post std_sort wordMap \<longleftrightarrow>
     mset (std_sort wordMap) = mset wordMap \<and> descending (std_sort wordMap)"

fun insert_desc :: "string \<times> u64 \<Rightarrow> (string \<times> u64) list \<Rightarrow> (string \<times> u64) list" where
  "insert_desc a [] = [a]"
| "insert_desc a (b # bs) = (if snd b > snd a then b # insert_desc a bs else a # b # bs)"

definition sort_desc :: "WordMap \<Rightarrow> WordMap" where
  "sort_desc wordMap = foldr insert_desc wordMap []"

section \<open>saveResults\<close>

text \<open>
  Decimal output of an unsigned number, and the two field adjustments used by the
  report: \<open>std::left << std::setw(n)\<close> pads after the text, \<open>std::right << std::setw(n)\<close>
  before it; a text longer than the field is written whole.
\<close>

function show_nat :: "nat \<Rightarrow> string" where
  "show_nat n = (if n < 10 then [char_of (48 + n)] else show_nat (n div 10) @ [char_of (48 + n mod 10)])"
  by pat_completeness auto
termination
  by (relation "measure id") auto

definition setw_left :: "nat \<Rightarrow> string \<Rightarrow> string" where
  "setw_left n s = s @ replicate (n - length s) CHR '' ''"

definition setw_right :: "nat \<Rightarrow> string \<Rightarrow> string" where
  "setw_right n s = replicate (n - length s) CHR '' '' @ s"

text \<open>
  The text written to the output file. \<open>show_fixed2\<close> stands for the library's output of
  a \<open>double\<close> under \<open>std::fixed << std::setprecision(2)\<close>.
\<close>

definition report_rows :: "(string \<times> u64) list \<Rightarrow> string" where
  "report_rows sortedWords =
     concat (map (\<lambda>(word, freq). setw_left 30 word @ setw_right 15 (show_nat (unat freq)) @ endl)
                 sortedWords)"

definition report ::
  "(real \<Rightarrow> string) \<Rightarrow> (WordMap \<Rightarrow> WordMap) \<Rightarrow> 'a WordCounterSequential_scheme
     \<Rightarrow> WordMap \<Rightarrow> int \<Rightarrow> string" where
  "report show_fixed2 std_sort this wordMap topN =
     ''Word Frequency Analysis Results'' @ endl @
     ''================================'' @ endl @
     ''Total Words: '' @ show_nat (unat (totalWords this)) @ endl @
     ''Unique Words: '' @ show_nat (uniqueWords this) @ endl @
     ''Execution Time: '' @ show_fixed2 (executionTime this) @ '' ms'' @ endl @
     ''================================'' @ endl @ endl @
     setw_left 30 ''Word'' @ setw_right 15 ''Frequency'' @ endl @
     replicate 45 CHR ''-'' @ endl @
     report_rows (getTopWords std_sort wordMap topN)"

text \<open>
  \<open>saveResults\<close>, the same in both classes. It returns nothing and changes no field of
  the counter: its effect is on the files and the console.
\<close>

definition saveResults ::
  "(real \<Rightarrow> string) \<Rightarrow> (WordMap \<Rightarrow> WordMap) \<Rightarrow> 'a WordCounterSequential_scheme \<Rightarrow> io
     \<Rightarrow> WordMap \<Rightarrow> string \<Rightarrow> int \<Rightarrow> io" where
  "saveResults show_fixed2 std_sort this w wordMap filename topN =
     (if \<not> writable w filename
      then w\<lparr>cerr := cerr w @ ''Error: Cannot create output file '' @ filename @ endl\<rparr>
      else w\<lparr>files := (files w)(filename \<mapsto> report show_fixed2 std_sort this wordMap topN),
              cout := cout w @ ''Results saved to: '' @ filename @ endl\<rparr>)"

section \<open>The parallel counter\<close>

subsection \<open>The parallel region of buildWordMapFromList\<close>

text \<open>
  Each thread of the team owns a worker: the iterations of the \<open>omp for\<close> loop assigned
  to it and not yet run (\<open>todo\<close>, the raw words in index order), its \<open>localMap\<close>, and
  whether it has left the final critical section (\<open>merged\<close>). Under the reduction
  clause \<open>totalWordCount\<close> is private to the thread: \<open>private_total\<close>. Under
  \<open>atomic\<close> and \<open>critical\<close> the thread updates its local map first and the shared
  counter in a separate, indivisible action: \<open>pending\<close> holds between the two.
\<close>

record worker =
  todo :: "string list"
  localMap :: WordMap
  private_total :: u64
  pending :: bool
  merged :: bool

text \<open>The variables shared by the team: \<open>wordFreq\<close> and \<open>totalWordCount\<close>.\<close>

record team =
  workers :: "worker list"
  shared_wordFreq :: WordMap
  shared_totalWordCount :: u64

text \<open>
  One iteration of the loop body, up to the update of the shared counter: the word is
  normalized and, when the result is not empty, counted in the local map. The
  reduction variant counts it in the private total at once.
\<close>

definition loop_body :: "SyncMethod \<Rightarrow> worker \<Rightarrow> worker" where
  "loop_body mode w =
     (case todo w of
        [] \<Rightarrow> w
      | rawWord # rest \<Rightarrow>
          (let normalized = normalizeWord rawWord
           in if normalized \<noteq> []
              then (if mode = Reduction
                    then w\<lparr>todo := rest,
                           localMap := subscript_add (localMap w) normalized 1,
                           private_total := private_total w + 1\<rparr>
                    else w\<lparr>todo := rest,
                           localMap := subscript_add (localMap w) normalized 1,
                           pending := True\<rparr>)
              else w\<lparr>todo := rest\<rparr>))"

text \<open>The body of the final critical section, for one order of iteration over the local map.\<close>

definition merge_entries :: "(string \<times> u64) list \<Rightarrow> WordMap \<Rightarrow> WordMap" where
  "merge_entries entries wordFreq =
     fold (\<lambda>entry m. subscript_add m (fst entry) (snd entry)) entries wordFreq"

text \<open>
  The interleavings of the team. Any thread with work left may take the next step:
  \<^item> \<open>iterate\<close>: run one loop body (not while its shared increment is outstanding);
  \<^item> \<open>increment\<close>: the \<open>omp atomic\<close> or \<open>omp critical\<close> increment of the shared counter;
  \<^item> \<open>merge\<close>: the critical section after the loop, as one step since critical sections
    exclude each other. It is behind the barrier that ends the \<open>omp for\<close> loop, so every
    thread has finished its iterations. The local map is visited in any order.
\<close>

inductive step :: "SyncMethod \<Rightarrow> team \<Rightarrow> team \<Rightarrow> bool" for mode :: SyncMethod where
  iterate:
    "\<lbrakk>workers s = before @ w # after; todo w \<noteq> []; \<not> pending w\<rbrakk>
     \<Longrightarrow> step mode s (s\<lparr>workers := before @ loop_body mode w # after\<rparr>)"
| increment:
    "\<lbrakk>workers s = before @ w # after; pending w\<rbrakk>
     \<Longrightarrow> step mode s (s\<lparr>workers := before @ w\<lparr>pending := False\<rparr> # after,
                        shared_totalWordCount := shared_totalWordCount s + 1\<rparr>)"
| merge:
    "\<lbrakk>workers s = before @ w # after; \<not> merged w;
      list_all (\<lambda>u. todo u = [] \<and> \<not> pending u) (workers s);
      mset entries = mset (localMap w)\<rbrakk>
     \<Longrightarrow> step mode s (s\<lparr>workers := before @ w\<lparr>merged := True\<rparr> # after,
                        shared_wordFreq := merge_entries entries (shared_wordFreq s)\<rparr>)"

definition new_worker :: "string list \<Rightarrow> worker" where
  "new_worker chunk =
     \<lparr>todo = chunk, localMap = [], private_total = 0, pending = False, merged = False\<rparr>"

definition fork :: "string list list \<Rightarrow> team" where
  "fork chunks = \<lparr>workers = map new_worker chunks, shared_wordFreq = [], shared_totalWordCount = 0\<rparr>"

definition joined :: "team \<Rightarrow> bool" where
  "joined s = list_all merged (workers s)"

text \<open>
  The value of \<open>totalWordCount\<close> after the region: under the reduction clause the
  private totals are added to the original variable when the threads join.
\<close>

definition totalWordCount_after :: "SyncMethod \<Rightarrow> team \<Rightarrow> u64" where
  "totalWordCount_after mode s =
     (if mode = Reduction
      then shared_totalWordCount s + sum_list (map private_total (workers s))
      else shared_totalWordCount s)"

text \<open>
  The loop runs \<open>i\<close> from 0 while \<open>i < static_cast<int>(rawWords.size())\<close>: these are
  the words it visits. \<open>schedule(static)\<close> gives every thread of the team one contiguous
  block of the iterations, in thread order; the sizes of the blocks are the runtime's
  choice, so any split \<open>chunks\<close> is allowed. \<open>num_threads\<close> is the size of the
  team, which the OpenMP runtime decides; a team has at least one thread.
\<close>

definition iterations :: "string list \<Rightarrow> string list" where
  "iterations rawWords = take (nat (size_to_int (length rawWords))) rawWords"

inductive buildWordMapFromList ::
  "nat \<Rightarrow> WordCounterParallel \<Rightarrow> string list \<Rightarrow> WordMap \<times> WordCounterParallel \<Rightarrow> bool" where
  no_words:
    "rawWords = []
     \<Longrightarrow> buildWordMapFromList num_threads this rawWords ([], this\<lparr>totalWords := 0\<rparr>)"
| region:
    "\<lbrakk>rawWords \<noteq> []; 0 < num_threads; length chunks = num_threads;
      concat chunks = iterations rawWords;
      (step (syncMethod this))\<^sup>*\<^sup>* (fork chunks) s; joined s\<rbrakk>
     \<Longrightarrow> buildWordMapFromList num_threads this rawWords
           (shared_wordFreq s,
            this\<lparr>totalWords := totalWordCount_after (syncMethod this) s\<rparr>)"

subsection \<open>One schedule, as a function\<close>

text \<open>
  The schedule in which the threads run their loops one after the other, each shared
  increment directly after its loop body, and then merge in thread order, every local
  map visited from its first entry to its last.
\<close>

function run_loop :: "SyncMethod \<Rightarrow> worker \<times> u64 \<Rightarrow> worker \<times> u64" where
  "run_loop mode (w, shared_total) =
     (if pending w then run_loop mode (w\<lparr>pending := False\<rparr>, shared_total + 1)
      else if todo w = [] then (w, shared_total)
      else run_loop mode (loop_body mode w, shared_total))"
  by pat_completeness auto
termination
  by (relation "measure (\<lambda>(mode, w, t). 2 * length (todo w) + (if pending w then 1 else 0))")
     (auto simp: loop_body_def Let_def split: list.splits)

fun run_loops :: "SyncMethod \<Rightarrow> worker list \<Rightarrow> u64 \<Rightarrow> worker list \<times> u64" where
  "run_loops mode [] shared_total = ([], shared_total)"
| "run_loops mode (w # ws) shared_total =
     (let (w', t') = run_loop mode (w, shared_total);
          (ws', t'') = run_loops mode ws t'
      in (w' # ws', t''))"

fun run_merges :: "worker list \<Rightarrow> WordMap \<Rightarrow> worker list \<times> WordMap" where
  "run_merges [] wordFreq = ([], wordFreq)"
| "run_merges (w # ws) wordFreq =
     (let (ws', m) = run_merges ws (merge_entries (localMap w) wordFreq)
      in (w\<lparr>merged := True\<rparr> # ws', m))"

definition run_team :: "SyncMethod \<Rightarrow> team \<Rightarrow> team" where
  "run_team mode s =
     (let (ws, t) = run_loops mode (workers s) (shared_totalWordCount s);
          (ws', m) = run_merges ws (shared_wordFreq s)
      in \<lparr>workers = ws', shared_wordFreq = m, shared_totalWordCount = t\<rparr>)"

text \<open>
  A static split as OpenMP runtimes make it: every thread gets the quotient of the
  iterations by the team size, and the first threads one more, as far as the remainder
  reaches.
\<close>

fun split_static :: "nat \<Rightarrow> nat \<Rightarrow> nat \<Rightarrow> 'a list \<Rightarrow> 'a list list" where
  "split_static 0 q r xs = []"
| "split_static (Suc k) q r xs =
     (let size = q + (if 0 < r then 1 else 0)
      in take size xs # split_static k q (r - 1) (drop size xs))"

definition static_chunks :: "nat \<Rightarrow> 'a list \<Rightarrow> 'a list list" where
  "static_chunks num_threads xs =
     split_static num_threads (length xs div num_threads) (length xs mod num_threads) xs"

text \<open>\<open>buildWordMapFromList\<close> under that split and that schedule.\<close>

definition buildWordMapFromList_run ::
  "nat \<Rightarrow> WordCounterParallel \<Rightarrow> string list \<Rightarrow> WordMap \<times> WordCounterParallel" where
  "buildWordMapFromList_run num_threads this rawWords =
     (if rawWords = [] then ([], this\<lparr>totalWords := 0\<rparr>)
      else (let s = run_team (syncMethod this)
                      (fork (static_chunks num_threads (iterations rawWords)))
            in (shared_wordFreq s,
                this\<lparr>totalWords := totalWordCount_after (syncMethod this) s\<rparr>)))"

subsection \<open>countWords and countWordsFromFile\<close>

inductive par_countWords ::
  "nat \<Rightarrow> real \<Rightarrow> real \<Rightarrow> WordCounterParallel \<Rightarrow> string
     \<Rightarrow> WordMap \<times> WordCounterParallel \<Rightarrow> bool" where
  "buildWordMapFromList num_threads this (read_words text) (wordFreq, this')
   \<Longrightarrow> par_countWords num_threads startTime endTime this text
         (wordFreq, this'\<lparr>uniqueWords := length wordFreq, executionTime := endTime - startTime\<rparr>)"

inductive par_countWordsFromFile ::
  "nat \<Rightarrow> real \<Rightarrow> real \<Rightarrow> WordCounterParallel \<Rightarrow> io \<Rightarrow> string
     \<Rightarrow> WordMap \<times> WordCounterParallel \<times> io \<Rightarrow> bool" where
  cannot_open:
    "files w filename = None
     \<Longrightarrow> par_countWordsFromFile num_threads startTime endTime this w filename
           ([], this\<lparr>executionTime := 0\<rparr>,
            w\<lparr>cerr := cerr w @ ''Error: Cannot open file '' @ filename @ endl\<rparr>)"
| opened:
    "\<lbrakk>files w filename = Some content;
      buildWordMapFromList num_threads this (read_words content) (wordFreq, this')\<rbrakk>
     \<Longrightarrow> par_countWordsFromFile num_threads startTime endTime this w filename
           (wordFreq,
            this'\<lparr>uniqueWords := length wordFreq, executionTime := endTime - startTime\<rparr>, w)"

text \<open>The two operations under the schedule \<open>run_team\<close>.\<close>

definition par_countWords_run ::
  "nat \<Rightarrow> real \<Rightarrow> real \<Rightarrow> WordCounterParallel \<Rightarrow> string \<Rightarrow> WordMap \<times> WordCounterParallel" where
  "par_countWords_run num_threads startTime endTime this text =
     (let (wordFreq, this') = buildWordMapFromList_run num_threads this (read_words text)
      in (wordFreq,
          this'\<lparr>uniqueWords := length wordFreq, executionTime := endTime - startTime\<rparr>))"

definition par_countWordsFromFile_run ::
  "nat \<Rightarrow> real \<Rightarrow> real \<Rightarrow> WordCounterParallel \<Rightarrow> io \<Rightarrow> string
     \<Rightarrow> WordMap \<times> WordCounterParallel \<times> io" where
  "par_countWordsFromFile_run num_threads startTime endTime this w filename =
     (case files w filename of
        None \<Rightarrow>
          ([], this\<lparr>executionTime := 0\<rparr>,
           w\<lparr>cerr := cerr w @ ''Error: Cannot open file '' @ filename @ endl\<rparr>)
      | Some content \<Rightarrow>
          (let (wordFreq, this') = buildWordMapFromList_run num_threads this (read_words content)
           in (wordFreq,
               this'\<lparr>uniqueWords := length wordFreq, executionTime := endTime - startTime\<rparr>,
               w)))"

section \<open>The two main programs\<close>

text \<open>
  \<open>argv[0]\<close> is \<open>program\<close> and \<open>args\<close> are the arguments after it, so \<open>argc\<close> is
  \<open>1 + length args\<close>. \<open>std::stoi\<close> is library code: \<open>stoi\<close> gives its value, or
  \<open>None\<close> where it throws; neither program catches the exception, so it ends the
  process, which is the result \<open>None\<close> of a main program. A result \<open>Some (code, w)\<close>
  is a return from \<open>main\<close> with exit code \<open>code\<close>. \<open>show_fixed4\<close> is the
  output of a \<open>double\<close> under \<open>std::fixed << std::setprecision(4)\<close>.
\<close>

definition show_int :: "int \<Rightarrow> string" where
  "show_int i = (if i < 0 then CHR ''-'' # show_nat (nat (- i)) else show_nat (nat i))"

text \<open>The loop that prints the ranked words.\<close>

fun top_rows :: "nat \<Rightarrow> (string \<times> u64) list \<Rightarrow> string" where
  "top_rows rank [] = []"
| "top_rows rank ((word, freq) # rest) =
     setw_right 3 (show_nat rank) @ ''. '' @ setw_left 20 word @
     setw_right 10 (show_nat (unat freq)) @ endl @ top_rows (rank + 1) rest"

text \<open>
  Both programs are the same from the test \<open>wordFreq.empty()\<close> to the end: the
  statistics and the ten most frequent words on \<open>std::cout\<close>, then \<open>saveResults\<close>,
  whatever it does, then the closing lines and the exit code 0.
\<close>

definition main_tail ::
  "(real \<Rightarrow> string) \<Rightarrow> (real \<Rightarrow> string) \<Rightarrow> (WordMap \<Rightarrow> WordMap)
     \<Rightarrow> 'a WordCounterSequential_scheme \<Rightarrow> WordMap \<Rightarrow> io \<Rightarrow> string \<Rightarrow> int \<Rightarrow> int \<times> io" where
  "main_tail show_fixed2 show_fixed4 std_sort counter wordFreq w outputFile topN =
     (if wordFreq = []
      then (1, w\<lparr>cerr := cerr w @ ''Error: No words processed!'' @ endl\<rparr>)
      else
        (let w1 = w\<lparr>cout := cout w @
                    endl @ ''Statistics:'' @ endl @
                    ''-------------------------------------------'' @ endl @
                    ''Total Words:     '' @ show_nat (unat (getTotalWords counter)) @ endl @
                    ''Unique Words:    '' @ show_nat (getUniqueWords counter) @ endl @
                    ''Execution Time:  '' @ show_fixed2 (getExecutionTime counter) @ '' ms'' @ endl @
                    ''                 '' @ show_fixed4 (getExecutionTime counter / 1000) @
                    '' seconds'' @ endl @
                    endl @ ''Top '' @ show_int (min 10 topN) @ '' Most Frequent Words:'' @ endl @
                    ''-------------------------------------------'' @ endl @
                    top_rows 1 (getTopWords std_sort wordFreq 10) @
                    endl @ ''Saving results...'' @ endl\<rparr>;
             w2 = saveResults show_fixed2 std_sort counter w1 wordFreq outputFile topN
         in (0, w2\<lparr>cout := cout w2 @
                    endl @ ''Processing complete!'' @ endl @
                    ''==========================================='' @ endl\<rparr>)))"

definition seq_main ::
  "(string \<Rightarrow> int option) \<Rightarrow> (real \<Rightarrow> string) \<Rightarrow> (real \<Rightarrow> string) \<Rightarrow> (WordMap \<Rightarrow> WordMap)
     \<Rightarrow> real \<Rightarrow> real \<Rightarrow> io \<Rightarrow> string \<Rightarrow> string list \<Rightarrow> (int \<times> io) option" where
  "seq_main stoi show_fixed2 show_fixed4 std_sort startTime endTime w program args =
     (if length args < 1
      then Some (1, w\<lparr>cerr := cerr w @
                      ''Usage: '' @ program @ '' <input_file> [output_file] [top_n]'' @ endl @
                      ''Example: '' @ program @
                      '' data/test_10mb.txt results/output.txt 100'' @ endl\<rparr>)
      else
        (let inputFile = args ! 0;
             outputFile = (if 1 < length args then args ! 1 else ''results/sequential/output.txt'')
         in case (if 2 < length args then stoi (args ! 2) else Some 100) of
              None \<Rightarrow> None
            | Some topN \<Rightarrow>
                (let w1 = w\<lparr>cout := cout w @
                            ''==========================================='' @ endl @
                            ''  Sequential Word Frequency Counter'' @ endl @
                            ''==========================================='' @ endl @
                            ''Input File: '' @ inputFile @ endl @
                            ''Output File: '' @ outputFile @ endl @
                            ''Top N Words: '' @ show_int topN @ endl @
                            ''-------------------------------------------'' @ endl @
                            ''Processing file...'' @ endl\<rparr>;
                     (wordFreq, counter, w2) =
                       seq_countWordsFromFile startTime endTime new_WordCounterSequential
                         w1 inputFile
                 in Some (main_tail show_fixed2 show_fixed4 std_sort counter wordFreq w2
                            outputFile topN))))"

definition parseSyncMethod :: "string \<Rightarrow> SyncMethod" where
  "parseSyncMethod s =
     (if s = ''critical'' then Critical else if s = ''atomic'' then Atomic else Reduction)"

text \<open>
  The parallel program. \<open>max_threads\<close> is what \<open>omp_get_max_threads()\<close> returns when
  the program has not set the number of threads. The result depends on the
  interleaving of the team, so the program is a relation.
\<close>

inductive par_main ::
  "(string \<Rightarrow> int option) \<Rightarrow> (real \<Rightarrow> string) \<Rightarrow> (real \<Rightarrow> string) \<Rightarrow> (WordMap \<Rightarrow> WordMap)
     \<Rightarrow> nat \<Rightarrow> real \<Rightarrow> real \<Rightarrow> io \<Rightarrow> string \<Rightarrow> string list \<Rightarrow> (int \<times> io) option \<Rightarrow> bool"
  for stoi show_fixed2 show_fixed4 std_sort max_threads startTime endTime w program args where
  usage:
    "length args < 1
     \<Longrightarrow> par_main stoi show_fixed2 show_fixed4 std_sort max_threads startTime endTime w program args
           (Some (1, w\<lparr>cerr := cerr w @
                        ''Usage: '' @ program @
                        '' <input_file> [output_file] [top_n] [num_threads]'' @ endl @
                        ''Example: '' @ program @
                        '' data/test_10mb.txt results/output.txt 100 4'' @ endl\<rparr>))"
| bad_top_n:
    "\<lbrakk>1 \<le> length args; (if 2 < length args then stoi (args ! 2) else Some 100) = None\<rbrakk>
     \<Longrightarrow> par_main stoi show_fixed2 show_fixed4 std_sort max_threads startTime endTime w program args
           None"
| bad_num_threads:
    "\<lbrakk>1 \<le> length args; (if 2 < length args then stoi (args ! 2) else Some 100) = Some topN;
      (if 3 < length args then stoi (args ! 3) else Some 0) = None\<rbrakk>
     \<Longrightarrow> par_main stoi show_fixed2 show_fixed4 std_sort max_threads startTime endTime w program args
           None"
| run:
    "\<lbrakk>1 \<le> length args; inputFile = args ! 0;
      outputFile = (if 1 < length args then args ! 1 else ''results/parallel/output.txt'');
      (if 2 < length args then stoi (args ! 2) else Some 100) = Some topN;
      (if 3 < length args then stoi (args ! 3) else Some 0) = Some numThreads;
      syncModeStr = (if 4 < length args then args ! 4 else ''reduction'');
      num_threads = (if numThreads > 0 then nat numThreads else max_threads);
      w1 = w\<lparr>cout := cout w @
                 ''==========================================='' @ endl @
                 ''  Parallel Word Frequency Counter (OpenMP)'' @ endl @
                 ''==========================================='' @ endl @
                 ''Input File: '' @ inputFile @ endl @
                 ''Output File: '' @ outputFile @ endl @
                 ''Top N Words: '' @ show_int topN @ endl @
                 ''Threads: '' @ show_nat num_threads @ endl @
                 ''Sync Mode: '' @ syncModeStr @ endl @
                 ''-------------------------------------------'' @ endl @
                 ''Processing file...'' @ endl\<rparr>;
      par_countWordsFromFile num_threads startTime endTime
        (new_WordCounterParallel (parseSyncMethod syncModeStr)) w1 inputFile
        (wordFreq, counter, w2)\<rbrakk>
     \<Longrightarrow> par_main stoi show_fixed2 show_fixed4 std_sort max_threads startTime endTime w program args
           (Some (main_tail show_fixed2 show_fixed4 std_sort counter wordFreq w2
                    outputFile topN))"

section \<open>The words of the specification\<close>

text \<open>
  The normalization as the specification words it: keep the ASCII letters, in order,
  each in lower case. The letters are listed, not computed from character codes.
\<close>

definition ascii_upper :: string where
  "ascii_upper = ''ABCDEFGHIJKLMNOPQRSTUVWXYZ''"

definition ascii_lower :: string where
  "ascii_lower = ''abcdefghijklmnopqrstuvwxyz''"

definition is_ascii_letter :: "char \<Rightarrow> bool" where
  "is_ascii_letter c \<longleftrightarrow> c \<in> set (ascii_upper @ ascii_lower)"

definition lowercase :: "char \<Rightarrow> char" where
  "lowercase c = (case map_of (zip ascii_upper ascii_lower) c of Some l \<Rightarrow> l | None \<Rightarrow> c)"

definition normalize_spec :: "string \<Rightarrow> string" where
  "normalize_spec token = map lowercase (filter is_ascii_letter token)"

section \<open>Notions for stating the properties\<close>

text \<open>
  What a frequency map holds: its set of keys and the count of each word (0 for a word
  that is not a key), and \<open>counted_words\<close>, the words that a run over \<open>rawWords\<close>
  counts: the normalized forms that are not empty, in order.
\<close>

definition keys :: "WordMap \<Rightarrow> string set" where
  "keys m = fst ` set m"

definition count_of :: "WordMap \<Rightarrow> string \<Rightarrow> u64" where
  "count_of m key = (case map_of m key of None \<Rightarrow> 0 | Some c \<Rightarrow> c)"

definition counted_words :: "string list \<Rightarrow> string list" where
  "counted_words rawWords = filter (\<lambda>normalized. normalized \<noteq> []) (map normalizeWord rawWords)"

text \<open>
  Bookkeeping for the team. For a worker that has not merged yet: the keys it will
  still bring to the shared map, the count it will still add for a word, and what it
  will still add to the total (its private total, an outstanding increment, and the
  words it has not visited). For the team: the same, with what the shared variables
  hold already. \<open>team_ok\<close> is what every reachable state satisfies.
\<close>

definition worker_keys :: "worker \<Rightarrow> string set" where
  "worker_keys w = (if merged w then {} else keys (localMap w) \<union> set (counted_words (todo w)))"

definition worker_count :: "worker \<Rightarrow> string \<Rightarrow> u64" where
  "worker_count w k =
     (if merged w then 0
      else count_of (localMap w) k + of_nat (count_list (counted_words (todo w)) k))"

definition worker_total :: "worker \<Rightarrow> u64" where
  "worker_total w =
     private_total w + (if pending w then 1 else 0) + of_nat (length (counted_words (todo w)))"

definition team_keys :: "team \<Rightarrow> string set" where
  "team_keys s = keys (shared_wordFreq s) \<union> \<Union> (set (map worker_keys (workers s)))"

definition team_count :: "team \<Rightarrow> string \<Rightarrow> u64" where
  "team_count s k = count_of (shared_wordFreq s) k + sum_list (map (\<lambda>w. worker_count w k) (workers s))"

definition team_total :: "team \<Rightarrow> u64" where
  "team_total s = shared_totalWordCount s + sum_list (map worker_total (workers s))"

definition worker_ok :: "SyncMethod \<Rightarrow> worker \<Rightarrow> bool" where
  "worker_ok mode w \<longleftrightarrow>
     distinct (map fst (localMap w)) \<and>
     (merged w \<longrightarrow> todo w = [] \<and> \<not> pending w) \<and>
     (mode \<noteq> Reduction \<longrightarrow> private_total w = 0)"

definition team_ok :: "SyncMethod \<Rightarrow> team \<Rightarrow> bool" where
  "team_ok mode s \<longleftrightarrow> distinct (map fst (shared_wordFreq s)) \<and> list_all (worker_ok mode) (workers s)"

text \<open>The number of steps a team can still take is bounded by this measure.\<close>

definition worker_measure :: "worker \<Rightarrow> nat" where
  "worker_measure w = 2 * length (todo w) + (if pending w then 1 else 0) + (if merged w then 0 else 1)"

definition team_measure :: "team \<Rightarrow> nat" where
  "team_measure s = sum_list (map worker_measure (workers s))"

text \<open>
  The statistics of a counter agree with a frequency map: the total is the sum of the
  counts (in the 64-bit arithmetic of both), the number of unique words is the number
  of keys.
\<close>

definition stats_match :: "WordMap \<Rightarrow> 'a WordCounterSequential_scheme \<Rightarrow> bool" where
  "stats_match m this \<longleftrightarrow>
     totalWords this = sum_list (map snd m) \<and> uniqueWords this = card (keys m)"

text \<open>A frequency map of \<open>2^31\<close> words, each with the count 1: the words \<open>a\<close>, \<open>aa\<close>, \<open>aaa\<close>, ...\<close>

definition many_words :: WordMap where
  "many_words = map (\<lambda>i. (replicate (Suc i) CHR ''a'', 1)) [0..<2 ^ 31]"

section \<open>Normalization\<close>

lemma letter_codes:
  "map (of_char :: char \<Rightarrow> nat) ascii_upper = [65..<91]"
  "map (of_char :: char \<Rightarrow> nat) ascii_lower = [97..<123]"
  by code_simp+

lemma upper_lower_table:
  "zip ascii_upper ascii_lower = map (\<lambda>n. (char_of n, char_of (n + 32))) [65..<91::nat]"
  by code_simp

lemma of_char_mem: "(of_char c :: nat) \<in> set (map of_char cs) \<longleftrightarrow> c \<in> set cs"
  by (auto simp: inj_image_mem_iff [OF inj_of_char])

lemma isalpha_letter: "isalpha c = is_ascii_letter c"
proof -
  have "is_ascii_letter c \<longleftrightarrow> (of_char c :: nat) \<in> set (map of_char (ascii_upper @ ascii_lower))"
    unfolding is_ascii_letter_def by (rule of_char_mem [symmetric])
  also have "\<dots> \<longleftrightarrow> (of_char c :: nat) \<in> set ([65..<91] @ [97..<123])"
    by (simp only: map_append letter_codes)
  also have "\<dots> \<longleftrightarrow> (of_char c :: nat) \<in> {65..<91} \<union> {97..<123}"
    by (simp only: set_append set_upt)
  also have "\<dots> \<longleftrightarrow> isalpha c"
    by (auto simp: isalpha_def Let_def)
  finally show ?thesis by simp
qed

lemma map_of_codes:
  fixes ns :: "nat list"
  shows "\<forall>n \<in> set ns. n < 256 \<Longrightarrow>
   map_of (map (\<lambda>n. (char_of n, g n)) ns) c =
     (if of_char c \<in> set ns then Some (g (of_char c)) else None)"
proof (induction ns)
  case Nil
  then show ?case by simp
next
  case (Cons n ns)
  then have "n < 256" by simp
  then have "char_of n = c \<longleftrightarrow> n = of_char c"
    using of_char_of [of n] by auto
  with Cons show ?case by auto
qed

lemma tolower_lowercase: "tolower c = lowercase c"
proof -
  have "map_of (zip ascii_upper ascii_lower) c =
        (if of_char c \<in> set [65..<91::nat] then Some (char_of (of_char c + 32 :: nat)) else None)"
    unfolding upper_lower_table by (rule map_of_codes) simp
  then have "map_of (zip ascii_upper ascii_lower) c =
        (if 65 \<le> (of_char c :: nat) \<and> (of_char c :: nat) \<le> 90
         then Some (char_of (of_char c + 32 :: nat)) else None)"
    by (simp only: set_upt) auto
  then show ?thesis
    by (simp add: lowercase_def tolower_def Let_def)
qed

lemma normalize_loop_eq: "normalize_loop acc w = acc @ map tolower (filter isalpha w)"
  by (induction w arbitrary: acc) simp_all

lemma normalizeWord_eq: "normalizeWord w = map tolower (filter isalpha w)"
  by (simp add: normalizeWord_def normalize_loop_eq)

lemma normalizeWord_Nil: "normalizeWord [] = []"
  by (simp add: normalizeWord_def)

lemma seq_loop_skip:
  "\<lbrakk>normalizeWord rawWord = []; read_word stream = Some (rawWord, rest)\<rbrakk>
   \<Longrightarrow> seq_loop stream acc = seq_loop rest acc"
  by (cases acc) (simp add: seq_loop.simps [of stream])

lemma loop_body_skip:
  "\<lbrakk>normalizeWord rawWord = []; todo w = rawWord # rest\<rbrakk>
   \<Longrightarrow> loop_body mode w = w\<lparr>todo := rest\<rparr>"
  by (simp add: loop_body_def)

text \<open>
  C4. For every input string, \<open>normalizeWord\<close> keeps exactly the ASCII letters, in
  order and in lower case, and drops every other character; \<open>"Hello,"\<close> becomes
  \<open>"hello"\<close>, \<open>"123"\<close> and the empty string become the empty string. A word whose
  normalization is empty changes neither the frequency map nor the total: the
  sequential loop goes on from the rest of the stream with both unchanged, and the loop
  body of the parallel counter only moves on to the next word.
\<close>

theorem normalizeWord_keeps_letters:
  "normalizeWord token = normalize_spec token \<and>
   normalizeWord ''Hello,'' = ''hello'' \<and>
   normalizeWord ''123'' = [] \<and>
   normalizeWord [] = [] \<and>
   (normalizeWord rawWord = [] \<longrightarrow>
      (read_word stream = Some (rawWord, rest) \<longrightarrow> seq_loop stream acc = seq_loop rest acc) \<and>
      (todo w = rawWord # ts \<longrightarrow> loop_body mode w = w\<lparr>todo := ts\<rparr>))"
proof -
  have "normalizeWord token = normalize_spec token"
    by (simp add: normalizeWord_eq normalize_spec_def isalpha_letter tolower_lowercase
             cong: filter_cong)
  moreover have "normalizeWord ''Hello,'' = ''hello''"
    by code_simp
  moreover have "normalizeWord ''123'' = []"
    by code_simp
  ultimately show ?thesis
    by (simp add: normalizeWord_Nil seq_loop_skip loop_body_skip)
qed

theorem normalizeWord_keeps_letters_witness:
  "normalizeWord ''123'' = [] \<and>
   read_word ''123 abc'' = Some (''123'', '' abc'') \<and>
   seq_loop ''123 abc'' ([], 0) = seq_loop '' abc'' ([], 0) \<and>
   todo (new_worker [''123'', ''abc'']) = [''123'', ''abc''] \<and>
   loop_body Atomic (new_worker [''123'', ''abc'']) = (new_worker [''123'', ''abc''])\<lparr>todo := [''abc'']\<rparr>"
proof -
  have h1: "normalizeWord ''123'' = []"
    by code_simp
  have h2: "read_word ''123 abc'' = Some (''123'', '' abc'')"
    by code_simp
  have h3: "todo (new_worker [''123'', ''abc'']) = [''123'', ''abc'']"
    by (simp add: new_worker_def)
  from normalizeWord_keeps_letters
         [of "''x''" "''123''" "''123 abc''" "'' abc''" "([], 0)"
             "new_worker [''123'', ''abc'']" "[''abc'']" Atomic]
  show ?thesis using h1 h2 h3 by simp
qed

section \<open>Frequency maps\<close>

lemma keys_Nil [simp]: "keys [] = {}"
  by (simp add: keys_def)

lemma count_of_Nil [simp]: "count_of [] k = 0"
  by (simp add: count_of_def)

lemma keys_subscript_add [simp]: "keys (subscript_add m k v) = insert k (keys m)"
  by (induction m k v rule: subscript_add.induct) (auto simp: keys_def)

lemma count_of_subscript_add [simp]:
  "count_of (subscript_add m k v) k' = count_of m k' + (if k' = k then v else 0)"
  by (induction m k v rule: subscript_add.induct) (auto simp: count_of_def)

lemma distinct_subscript_add [simp]:
  "distinct (map fst (subscript_add m k v)) = distinct (map fst m)"
proof (induction m k v rule: subscript_add.induct)
  case (1 key v)
  then show ?case by simp
next
  case (2 k c m key v)
  have "fst ` set (subscript_add m key v) = insert key (fst ` set m)"
    using keys_subscript_add by (simp add: keys_def)
  with 2 show ?case by auto
qed

lemma map_of_keys_count: "map_of m k = (if k \<in> keys m then Some (count_of m k) else None)"
  by (auto simp: keys_def count_of_def map_of_eq_None_iff split: option.splits)

lemma same_map:
  "\<lbrakk>keys a = keys b; \<And>k. count_of a k = count_of b k\<rbrakk> \<Longrightarrow> map_of a = map_of b"
  by (rule ext) (simp add: map_of_keys_count)

lemma counted_words_Nil [simp]: "counted_words [] = []"
  by (simp add: counted_words_def)

lemma counted_words_Cons:
  "counted_words (r # rs) =
     (if normalizeWord r \<noteq> [] then normalizeWord r # counted_words rs else counted_words rs)"
  by (simp add: counted_words_def)

lemma counted_words_append [simp]: "counted_words (a @ b) = counted_words a @ counted_words b"
  by (simp add: counted_words_def)

section \<open>The sequential loop\<close>

declare seq_loop.simps [simp del] read_words.simps [simp del]

lemma seq_loop_None: "read_word stream = None \<Longrightarrow> seq_loop stream acc = acc"
  by (cases acc) (simp add: seq_loop.simps)

lemma seq_loop_Some:
  "read_word stream = Some (word, rest) \<Longrightarrow>
   seq_loop stream (m, t) =
     (if normalizeWord word \<noteq> []
      then seq_loop rest (subscript_add m (normalizeWord word) 1, t + 1)
      else seq_loop rest (m, t))"
  by (subst seq_loop.simps) simp

lemma read_words_None: "read_word stream = None \<Longrightarrow> read_words stream = []"
  by (subst read_words.simps) simp

lemma read_words_Some:
  "read_word stream = Some (word, rest) \<Longrightarrow> read_words stream = word # read_words rest"
  by (subst read_words.simps) simp

lemma seq_loop_content:
  "seq_loop stream (m, t) = (m', t') \<Longrightarrow>
     keys m' = keys m \<union> set (counted_words (read_words stream)) \<and>
     (\<forall>k. count_of m' k =
            count_of m k + of_nat (count_list (counted_words (read_words stream)) k)) \<and>
     t' = t + of_nat (length (counted_words (read_words stream))) \<and>
     distinct (map fst m') = distinct (map fst m)"
proof (induction stream "(m, t)" arbitrary: m t rule: seq_loop.induct)
  case (1 stream m t)
  show ?case
  proof (cases "read_word stream")
    case None
    with 1(3) show ?thesis
      by (simp add: seq_loop_None read_words_None)
  next
    case (Some p)
    obtain word rest where p: "p = (word, rest)"
      by (cases p)
    show ?thesis
    proof (cases "normalizeWord word = []")
      case True
      with Some p 1(3) have "seq_loop rest (m, t) = (m', t')"
        by (simp add: seq_loop_Some)
      from 1(2) [OF Some p [symmetric] refl _ this] True
      show ?thesis using Some p True
        by (simp add: counted_words_Cons read_words_Some)
    next
      case False
      with Some p 1(3)
      have "seq_loop rest (subscript_add m (normalizeWord word) 1, t + 1) = (m', t')"
        by (simp add: seq_loop_Some)
      from 1(1) [OF Some p [symmetric] refl _ this] False
      show ?thesis using Some p False
        by (auto simp: counted_words_Cons read_words_Some)
    qed
  qed
qed

section \<open>Every interleaving computes the same map and total\<close>

lemma loop_body_Cons:
  "todo w = r # rest \<Longrightarrow>
   loop_body mode w =
     (if normalizeWord r \<noteq> []
      then (if mode = Reduction
            then w\<lparr>todo := rest, localMap := subscript_add (localMap w) (normalizeWord r) 1,
                   private_total := private_total w + 1\<rparr>
            else w\<lparr>todo := rest, localMap := subscript_add (localMap w) (normalizeWord r) 1,
                   pending := True\<rparr>)
      else w\<lparr>todo := rest\<rparr>)"
  by (simp add: loop_body_def Let_def)

lemma loop_body_preserves:
  assumes "todo w \<noteq> []" "\<not> pending w" "worker_ok mode w"
  shows "worker_ok mode (loop_body mode w)"
    and "worker_keys (loop_body mode w) = worker_keys w"
    and "worker_count (loop_body mode w) k = worker_count w k"
    and "worker_total (loop_body mode w) = worker_total w"
proof -
  from assms(1) obtain r rest where t: "todo w = r # rest" by (cases "todo w") auto
  from assms(1,3) have nm: "\<not> merged w" by (auto simp: worker_ok_def)
  show "worker_ok mode (loop_body mode w)"
    using assms nm by (auto simp: loop_body_Cons [OF t] worker_ok_def)
  show "worker_keys (loop_body mode w) = worker_keys w"
    using nm by (auto simp: loop_body_Cons [OF t] worker_keys_def t counted_words_Cons)
  show "worker_count (loop_body mode w) k = worker_count w k"
    using nm by (auto simp: loop_body_Cons [OF t] worker_count_def t counted_words_Cons)
  show "worker_total (loop_body mode w) = worker_total w"
    using assms(2) by (auto simp: loop_body_Cons [OF t] worker_total_def t counted_words_Cons)
qed

lemma keys_merge_entries: "keys (merge_entries es g) = keys g \<union> fst ` set es"
  unfolding merge_entries_def by (induction es arbitrary: g) auto

lemma distinct_merge_entries: "distinct (map fst (merge_entries es g)) = distinct (map fst g)"
  unfolding merge_entries_def by (induction es arbitrary: g) auto

lemma count_of_merge_entries:
  "count_of (merge_entries es g) k = count_of g k + sum_list (map snd (filter (\<lambda>e. fst e = k) es))"
  unfolding merge_entries_def by (induction es arbitrary: g) auto

lemma sum_of_key_distinct:
  "distinct (map fst m) \<Longrightarrow> sum_list (map snd (filter (\<lambda>e. fst e = k) m)) = count_of m k"
proof (induction m)
  case Nil
  then show ?case by simp
next
  case (Cons e m)
  obtain k' c where e: "e = (k', c)" by (cases e)
  show ?case
  proof (cases "k' = k")
    case True
    with Cons e have "k \<notin> fst ` set m" by auto
    then have "filter (\<lambda>e. fst e = k) m = []" by (auto simp: filter_empty_conv)
    with True e show ?thesis by (simp add: count_of_def)
  next
    case False
    with Cons e show ?thesis by (simp add: count_of_def)
  qed
qed

lemma sum_of_key_mset:
  "mset es = mset m \<Longrightarrow>
   sum_list (map snd (filter (\<lambda>e. fst e = k) es)) = sum_list (map snd (filter (\<lambda>e. fst e = (k::string)) m) :: u64 list)"
proof -
  assume "mset es = mset m"
  then have "mset (map snd (filter (\<lambda>e. fst e = k) es)) = mset (map snd (filter (\<lambda>e. fst e = k) m))"
    by (simp only: mset_map mset_filter)
  then show ?thesis by (metis sum_mset_sum_list)
qed

lemma step_preserves:
  assumes "step mode s s'" "team_ok mode s"
  shows "team_ok mode s' \<and> team_keys s' = team_keys s \<and> (\<forall>k. team_count s' k = team_count s k) \<and>
         team_total s' = team_total s"
  using assms
proof (induction rule: step.induct)
  case (iterate s before w after)
  then have ok: "worker_ok mode w" by (simp add: team_ok_def)
  note p = loop_body_preserves [OF iterate(2,3) ok]
  from iterate p show ?case
    by (simp add: team_ok_def team_keys_def team_count_def team_total_def)
next
  case (increment s before w after)
  then have ok: "worker_ok mode w" by (simp add: team_ok_def)
  with increment show ?case
    by (simp add: team_ok_def team_keys_def team_count_def team_total_def worker_ok_def
                  worker_keys_def worker_count_def worker_total_def)
next
  case (merge s before w after entries)
  then have ok: "worker_ok mode w" by (simp add: team_ok_def)
  from merge(3,1) have idle: "todo w = []" by simp
  from merge(4) have se: "set entries = set (localMap w)" by (metis set_mset_mset)
  have c: "count_of (merge_entries entries (shared_wordFreq s)) k =
           count_of (shared_wordFreq s) k + count_of (localMap w) k" for k
    using ok sum_of_key_mset [OF merge(4)]
    by (simp add: count_of_merge_entries sum_of_key_distinct worker_ok_def)
  have k: "keys (merge_entries entries (shared_wordFreq s)) =
           keys (shared_wordFreq s) \<union> keys (localMap w)"
    unfolding keys_merge_entries se by (simp add: keys_def)
  from merge ok have "team_ok mode (s\<lparr>workers := before @ w\<lparr>merged := True\<rparr> # after,
      shared_wordFreq := merge_entries entries (shared_wordFreq s)\<rparr>)"
    by (simp add: team_ok_def worker_ok_def distinct_merge_entries)
  moreover from merge idle have "team_keys (s\<lparr>workers := before @ w\<lparr>merged := True\<rparr> # after,
      shared_wordFreq := merge_entries entries (shared_wordFreq s)\<rparr>) = team_keys s"
    by (auto simp add: team_keys_def worker_keys_def k)
  moreover from merge idle have "team_count (s\<lparr>workers := before @ w\<lparr>merged := True\<rparr> # after,
      shared_wordFreq := merge_entries entries (shared_wordFreq s)\<rparr>) k = team_count s k" for k
    by (simp add: team_count_def worker_count_def c)
  moreover from merge have "team_total (s\<lparr>workers := before @ w\<lparr>merged := True\<rparr> # after,
      shared_wordFreq := merge_entries entries (shared_wordFreq s)\<rparr>) = team_total s"
    by (simp add: team_total_def worker_total_def)
  ultimately show ?case by simp
qed

lemma steps_preserve:
  assumes "(step mode)\<^sup>*\<^sup>* s s'" "team_ok mode s"
  shows "team_ok mode s' \<and> team_keys s' = team_keys s \<and> (\<forall>k. team_count s' k = team_count s k) \<and>
         team_total s' = team_total s"
  using assms
proof (induction rule: rtranclp_induct)
  case base
  then show ?case by simp
next
  case (step y z)
  with step_preserves [of mode y z] show ?case by simp
qed

lemma fork_ok: "team_ok mode (fork chunks)"
  by (simp add: team_ok_def fork_def list_all_iff worker_ok_def new_worker_def)

lemma fork_keys: "team_keys (fork chunks) = set (counted_words (concat chunks))"
  by (induction chunks) (auto simp: team_keys_def fork_def worker_keys_def new_worker_def)

lemma fork_count: "team_count (fork chunks) k = of_nat (count_list (counted_words (concat chunks)) k)"
  by (induction chunks) (simp_all add: team_count_def fork_def worker_count_def new_worker_def)

lemma fork_total: "team_total (fork chunks) = of_nat (length (counted_words (concat chunks)))"
  by (induction chunks) (simp_all add: team_total_def fork_def worker_total_def new_worker_def)

lemma joined_keys: "joined s \<Longrightarrow> team_keys s = keys (shared_wordFreq s)"
  by (auto simp: joined_def team_keys_def worker_keys_def list_all_iff)

lemma joined_count: "joined s \<Longrightarrow> team_count s k = count_of (shared_wordFreq s) k"
proof -
  assume "joined s"
  then have "sum_list (map (\<lambda>w. worker_count w k) (workers s)) =
             sum_list (map (\<lambda>w. 0) (workers s))"
    by (intro arg_cong [where f = sum_list]) (simp add: joined_def worker_count_def list_all_iff)
  then show ?thesis by (simp add: team_count_def)
qed

lemma joined_total:
  assumes "joined s" "team_ok mode s"
  shows "team_total s = totalWordCount_after mode s"
proof -
  from assms have a: "sum_list (map worker_total (workers s)) =
                      sum_list (map private_total (workers s))"
    by (intro arg_cong [where f = sum_list])
       (simp add: joined_def team_ok_def worker_ok_def worker_total_def list_all_iff)
  show ?thesis
  proof (cases "mode = Reduction")
    case True
    with a show ?thesis by (simp add: team_total_def totalWordCount_after_def)
  next
    case False
    with assms have "sum_list (map private_total (workers s)) =
                     sum_list (map (\<lambda>w. 0) (workers s))"
      by (intro arg_cong [where f = sum_list]) (simp add: team_ok_def worker_ok_def list_all_iff)
    with a False show ?thesis by (simp add: team_total_def totalWordCount_after_def)
  qed
qed

lemma region_result:
  assumes "(step mode)\<^sup>*\<^sup>* (fork chunks) s" "joined s"
  shows "keys (shared_wordFreq s) = set (counted_words (concat chunks))"
    and "count_of (shared_wordFreq s) k = of_nat (count_list (counted_words (concat chunks)) k)"
    and "totalWordCount_after mode s = of_nat (length (counted_words (concat chunks)))"
    and "distinct (map fst (shared_wordFreq s))"
proof -
  note p = steps_preserve [OF assms(1) fork_ok]
  from p assms(2) show "keys (shared_wordFreq s) = set (counted_words (concat chunks))"
    by (simp add: joined_keys fork_keys)
  from p assms(2) joined_count [of s k] show "count_of (shared_wordFreq s) k = of_nat (count_list (counted_words (concat chunks)) k)"
    by (simp add: fork_count)
  from p assms(2) joined_total [of s mode] show "totalWordCount_after mode s = of_nat (length (counted_words (concat chunks)))"
    by (simp add: fork_total)
  from p show "distinct (map fst (shared_wordFreq s))" by (simp add: team_ok_def)
qed

lemma buildWordMapFromList_result:
  assumes "buildWordMapFromList n this rawWords (m, this')"
  shows "keys m = set (counted_words (iterations rawWords))"
    and "count_of m k = of_nat (count_list (counted_words (iterations rawWords)) k)"
    and "distinct (map fst m)"
    and "this' = this\<lparr>totalWords := of_nat (length (counted_words (iterations rawWords)))\<rparr>"
  using assms
  by (auto elim!: buildWordMapFromList.cases simp: iterations_def region_result
           simp del: of_nat_eq_iff)

section \<open>Every interleaving ends, and ends joined\<close>

lemma loop_body_measure: "todo w \<noteq> [] \<Longrightarrow> \<not> pending w \<Longrightarrow> worker_measure (loop_body mode w) < worker_measure w"
  by (cases "todo w") (auto simp: loop_body_Cons worker_measure_def)

lemma step_decreases: "step mode s s' \<Longrightarrow> team_measure s' < team_measure s"
proof (induction rule: step.induct)
  case (iterate s before w after)
  with loop_body_measure [of w mode] show ?case by (simp add: team_measure_def)
next
  case (increment s before w after)
  then show ?case by (simp add: team_measure_def worker_measure_def)
next
  case (merge s before w after entries)
  then show ?case by (simp add: team_measure_def worker_measure_def)
qed

lemma wf_step: "wf {(s', s). step mode s s'}"
  by (rule wf_subset [OF wf_measure [of team_measure]]) (auto dest: step_decreases)

lemma progress:
  assumes "\<not> joined s"
  shows "\<exists>s'. step mode s s'"
proof (cases "\<exists>w \<in> set (workers s). pending w")
  case True
  then obtain w where "w \<in> set (workers s)" "pending w" by blast
  then obtain before after where "workers s = before @ w # after"
    by (auto dest: split_list)
  with \<open>pending w\<close> show ?thesis by (blast intro: step.increment)
next
  case np: False
  show ?thesis
  proof (cases "\<exists>w \<in> set (workers s). todo w \<noteq> []")
    case True
    then obtain w where w: "w \<in> set (workers s)" "todo w \<noteq> []" by blast
    then obtain before after where "workers s = before @ w # after"
      by (auto dest: split_list)
    moreover from np w have "\<not> pending w" by blast
    ultimately show ?thesis using w(2) by (blast intro: step.iterate)
  next
    case False
    with np have idle: "list_all (\<lambda>u. todo u = [] \<and> \<not> pending u) (workers s)"
      by (auto simp: list_all_iff)
    from assms obtain w where w: "w \<in> set (workers s)" "\<not> merged w"
      by (auto simp: joined_def list_all_iff)
    then obtain before after where "workers s = before @ w # after"
      by (auto dest: split_list)
    from step.merge [OF this w(2) idle refl] show ?thesis by blast
  qed
qed

lemma joined_final:
  assumes "joined s" "team_ok mode s"
  shows "\<not> step mode s s'"
proof
  assume "step mode s s'"
  then show False using assms
    by (induction rule: step.induct)
       (auto simp: joined_def team_ok_def worker_ok_def list_all_iff)
qed

lemma terminates:
  "\<exists>s'. (step mode)\<^sup>*\<^sup>* s s' \<and> joined s'"
proof (induction s rule: wf_induct_rule [OF wf_step [of mode]])
  case (1 s)
  show ?case
  proof (cases "joined s")
    case True
    then show ?thesis by blast
  next
    case False
    then obtain s1 where s1: "step mode s s1" using progress by blast
    with 1 obtain s' where "(step mode)\<^sup>*\<^sup>* s1 s'" "joined s'" by blast
    with s1 show ?thesis by (blast intro: converse_rtranclp_into_rtranclp)
  qed
qed

section \<open>The schedule \<open>run_team\<close> is one of the interleavings\<close>

declare run_loop.simps [simp del]

lemma loop_body_merged: "merged (loop_body mode w) = merged w"
  by (cases "todo w") (simp_all add: loop_body_def Let_def)

lemma run_loop_steps:
  "run_loop mode (w, t) = (w', t') \<Longrightarrow>
   (step mode)\<^sup>*\<^sup>*
     \<lparr>workers = before @ w # after, shared_wordFreq = g, shared_totalWordCount = t\<rparr>
     \<lparr>workers = before @ w' # after, shared_wordFreq = g, shared_totalWordCount = t'\<rparr> \<and>
   todo w' = [] \<and> \<not> pending w' \<and> merged w' = merged w"
proof (induction mode "(w, t)" arbitrary: w t rule: run_loop.induct)
  case (1 mode w t)
  let ?s = "\<lparr>workers = before @ w # after, shared_wordFreq = g, shared_totalWordCount = t\<rparr>"
  show ?case
  proof (cases "pending w")
    case True
    with 1(3) have r: "run_loop mode (w\<lparr>pending := False\<rparr>, t + 1) = (w', t')"
      by (simp add: run_loop.simps [of mode w t])
    from step.increment [of ?s before w after mode] True
    have "step mode ?s \<lparr>workers = before @ w\<lparr>pending := False\<rparr> # after, shared_wordFreq = g,
                          shared_totalWordCount = t + 1\<rparr>"
      by simp
    with 1(1) [OF True r] show ?thesis
      by (auto intro: converse_rtranclp_into_rtranclp)
  next
    case np: False
    show ?thesis
    proof (cases "todo w = []")
      case True
      with np 1(3) show ?thesis by (simp add: run_loop.simps [of mode w t])
    next
      case False
      with np 1(3) have r: "run_loop mode (loop_body mode w, t) = (w', t')"
        by (simp add: run_loop.simps [of mode w t])
      from step.iterate [of ?s before w after mode] np False
      have "step mode ?s \<lparr>workers = before @ loop_body mode w # after, shared_wordFreq = g,
                            shared_totalWordCount = t\<rparr>"
        by simp
      with 1(2) [OF np False r] show ?thesis
        by (auto intro: converse_rtranclp_into_rtranclp simp: loop_body_merged)
    qed
  qed
qed

lemma run_loops_steps:
  "run_loops mode ws t = (ws', t') \<Longrightarrow>
   (step mode)\<^sup>*\<^sup>*
     \<lparr>workers = before @ ws, shared_wordFreq = g, shared_totalWordCount = t\<rparr>
     \<lparr>workers = before @ ws', shared_wordFreq = g, shared_totalWordCount = t'\<rparr> \<and>
   list_all (\<lambda>u. todo u = [] \<and> \<not> pending u) ws' \<and>
   map merged ws' = map merged ws"
proof (induction ws arbitrary: before t ws' t')
  case Nil
  then show ?case by simp
next
  case (Cons w ws)
  obtain w1 t1 where a: "run_loop mode (w, t) = (w1, t1)" by (cases "run_loop mode (w, t)")
  obtain ws2 t2 where b: "run_loops mode ws t1 = (ws2, t2)" by (cases "run_loops mode ws t1")
  from Cons(2) a b have r: "ws' = w1 # ws2" "t' = t2" by simp_all
  note A = run_loop_steps [OF a, of before ws g]
  note B = Cons(1) [OF b, of "before @ [w1]"]
  from A B show ?case unfolding r by (auto intro: rtranclp_trans)
qed

lemma run_merges_steps:
  "\<lbrakk>run_merges ws g = (ws', g');
    list_all (\<lambda>u. todo u = [] \<and> \<not> pending u) (before @ ws);
    list_all (\<lambda>u. \<not> merged u) ws\<rbrakk> \<Longrightarrow>
   (step mode)\<^sup>*\<^sup>*
     \<lparr>workers = before @ ws, shared_wordFreq = g, shared_totalWordCount = t\<rparr>
     \<lparr>workers = before @ ws', shared_wordFreq = g', shared_totalWordCount = t\<rparr> \<and>
   list_all merged ws'"
proof (induction ws arbitrary: before g ws' g')
  case Nil
  then show ?case by simp
next
  case (Cons w ws)
  let ?s = "\<lparr>workers = before @ w # ws, shared_wordFreq = g, shared_totalWordCount = t\<rparr>"
  obtain ws2 g2 where b: "run_merges ws (merge_entries (localMap w) g) = (ws2, g2)"
    by (cases "run_merges ws (merge_entries (localMap w) g)")
  from Cons(2) b have r: "ws' = w\<lparr>merged := True\<rparr> # ws2" "g' = g2" by simp_all
  from step.merge [of ?s before w ws "localMap w" mode] Cons(3,4)
  have s1: "step mode ?s \<lparr>workers = before @ w\<lparr>merged := True\<rparr> # ws,
              shared_wordFreq = merge_entries (localMap w) g, shared_totalWordCount = t\<rparr>"
    by simp
  from Cons(3,4) have "list_all (\<lambda>u. todo u = [] \<and> \<not> pending u) ((before @ [w\<lparr>merged := True\<rparr>]) @ ws)"
    and "list_all (\<lambda>u. \<not> merged u) ws" by simp_all
  note B = Cons(1) [OF b this]
  from s1 B show ?case unfolding r by (auto intro: converse_rtranclp_into_rtranclp)
qed

lemma run_team_steps:
  assumes "list_all (\<lambda>u. \<not> merged u) (workers s)"
  shows "(step mode)\<^sup>*\<^sup>* s (run_team mode s) \<and> joined (run_team mode s)"
proof -
  obtain ws t where a: "run_loops mode (workers s) (shared_totalWordCount s) = (ws, t)"
    by (cases "run_loops mode (workers s) (shared_totalWordCount s)")
  obtain ws' m where b: "run_merges ws (shared_wordFreq s) = (ws', m)"
    by (cases "run_merges ws (shared_wordFreq s)")
  have s: "s = \<lparr>workers = [] @ workers s, shared_wordFreq = shared_wordFreq s,
                 shared_totalWordCount = shared_totalWordCount s\<rparr>"
    by simp
  note A = run_loops_steps [OF a, of "[]" "shared_wordFreq s"]
  from A assms have "list_all (\<lambda>u. \<not> merged u) ws"
    by (metis (mono_tags, lifting) list.pred_map comp_apply list.pred_mono_strong)
  with A have "list_all (\<lambda>u. todo u = [] \<and> \<not> pending u) ([] @ ws)" "list_all (\<lambda>u. \<not> merged u) ws"
    by simp_all
  note B = run_merges_steps [OF b this, of mode t]
  have r: "run_team mode s = \<lparr>workers = [] @ ws', shared_wordFreq = m, shared_totalWordCount = t\<rparr>"
    by (simp add: run_team_def a b)
  from A B show ?thesis
    unfolding r joined_def by (subst s) (auto intro: rtranclp_trans)
qed

lemma length_split_static: "length (split_static k q r xs) = k"
  by (induction k arbitrary: r xs) (simp_all add: Let_def)

lemma concat_split_static: "concat (split_static k q r xs) = take (k * q + min r k) xs"
proof (induction k arbitrary: r xs)
  case 0
  then show ?case by simp
next
  case (Suc k)
  let ?m = "q + (if 0 < r then 1 else 0)"
  have "concat (split_static (Suc k) q r xs) =
        take ?m xs @ take (k * q + min (r - 1) k) (drop ?m xs)"
    by (simp add: Suc Let_def)
  also have "\<dots> = take (?m + (k * q + min (r - 1) k)) xs"
    by (simp only: take_add)
  also have "?m + (k * q + min (r - 1) k) = Suc k * q + min r (Suc k)"
    by (cases r) auto
  finally show ?case .
qed

lemma length_static_chunks: "length (static_chunks n xs) = n"
  by (simp add: static_chunks_def length_split_static)

lemma concat_static_chunks: "0 < n \<Longrightarrow> concat (static_chunks n xs) = xs"
proof -
  assume "0 < n"
  then have "n * (length xs div n) + min (length xs mod n) n = length xs"
    by (simp add: min_def)
  then show ?thesis
    by (simp add: static_chunks_def concat_split_static)
qed

lemma buildWordMapFromList_run_valid:
  "0 < n \<Longrightarrow> buildWordMapFromList n this rawWords (buildWordMapFromList_run n this rawWords)"
proof (cases "rawWords = []")
  case True
  then show ?thesis
    by (simp add: buildWordMapFromList_run_def buildWordMapFromList.no_words)
next
  case False
  assume n: "0 < n"
  let ?chunks = "static_chunks n (iterations rawWords)"
  have "list_all (\<lambda>u. \<not> merged u) (workers (fork ?chunks))"
    by (simp add: fork_def new_worker_def list_all_iff)
  note R = run_team_steps [OF this, of "syncMethod this"]
  from n have "length ?chunks = n" "concat ?chunks = iterations rawWords"
    by (simp_all add: length_static_chunks concat_static_chunks)
  from buildWordMapFromList.region [OF False n this] R
  show ?thesis using False
    by (simp add: buildWordMapFromList_run_def Let_def)
qed

section \<open>What the counting operations return\<close>


lemma size_to_int_eq: "size_to_int n = (int n + 2 ^ 31) mod 2 ^ 32 - 2 ^ 31"
proof -
  have "(word_of_nat n :: 32 word) = word_of_int (int n)" by simp
  then show ?thesis unfolding size_to_int_def by (simp only: int_word_sint) simp
qed

lemma size_to_int_small: "n < 2 ^ 31 \<Longrightarrow> size_to_int n = int n"
  by (simp add: size_to_int_eq)

lemma iterations_small: "length rawWords < 2 ^ 31 \<Longrightarrow> iterations rawWords = rawWords"
  by (simp add: iterations_def size_to_int_small)

lemma seq_countWords_result:
  assumes "seq_countWords st en this text = (m, this')"
  shows "keys m = set (counted_words (read_words text))"
    and "count_of m k = of_nat (count_list (counted_words (read_words text)) k)"
    and "distinct (map fst m)"
    and "this' = this\<lparr>totalWords := of_nat (length (counted_words (read_words text))),
                       uniqueWords := length m, executionTime := en - st\<rparr>"
proof -
  obtain m0 t0 where l: "seq_loop text ([], 0) = (m0, t0)" by (cases "seq_loop text ([], 0)")
  with assms have e: "m = m0" "this' = this\<lparr>totalWords := t0, uniqueWords := length m0, executionTime := en - st\<rparr>"
    by (auto simp add: seq_countWords_def)
  note c = seq_loop_content [OF l]
  from c e show "keys m = set (counted_words (read_words text))" by simp
  from c e show "count_of m k = of_nat (count_list (counted_words (read_words text)) k)" by simp
  from c e show "distinct (map fst m)" by simp
  from c e show "this' = this\<lparr>totalWords := of_nat (length (counted_words (read_words text))),
                       uniqueWords := length m, executionTime := en - st\<rparr>" by simp
qed

lemma par_countWords_result:
  assumes "par_countWords n st en this text (m, this')"
  shows "keys m = set (counted_words (iterations (read_words text)))"
    and "count_of m k = of_nat (count_list (counted_words (iterations (read_words text))) k)"
    and "distinct (map fst m)"
    and "this' = this\<lparr>totalWords := of_nat (length (counted_words (iterations (read_words text)))),
                       uniqueWords := length m, executionTime := en - st\<rparr>"
  using assms
  by (auto elim!: par_countWords.cases dest: buildWordMapFromList_result simp del: of_nat_eq_iff)

lemma par_countWords_exists:
  "0 < n \<Longrightarrow> \<exists>r. par_countWords n st en this text r"
proof -
  assume n: "0 < n"
  obtain m a where r: "buildWordMapFromList_run n this (read_words text) = (m, a)"
    by (cases "buildWordMapFromList_run n this (read_words text)")
  from buildWordMapFromList_run_valid [OF n, of this "read_words text"] r
  have "buildWordMapFromList n this (read_words text) (m, a)" by simp
  from par_countWords.intros [OF this] show ?thesis by blast
qed

lemma sum_list_counts:
  "distinct (map fst m) \<Longrightarrow> sum_list (map snd m) = (\<Sum>k \<in> keys m. count_of m k)"
proof (induction m)
  case Nil
  then show ?case by simp
next
  case (Cons e m)
  obtain k c where e: "e = (k, c)" by (cases e)
  from Cons e have nk: "k \<notin> keys m" by (simp add: keys_def)
  have fin: "finite (keys m)" by (simp add: keys_def)
  have "(\<Sum>k' \<in> keys m. count_of (e # m) k') = (\<Sum>k' \<in> keys m. count_of m k')"
    using nk by (intro sum.cong refl) (auto simp: e count_of_def)
  moreover have "keys (e # m) = insert k (keys m)" by (simp add: e keys_def)
  moreover have "count_of (e # m) k = c" by (simp add: e count_of_def)
  ultimately show ?case using Cons nk fin by (simp add: e)
qed

lemma total_is_sum:
  assumes "distinct (map fst m)" "keys m = set ws"
    and "\<And>k. count_of m k = of_nat (count_list ws k)"
  shows "sum_list (map snd m) = (of_nat (length ws) :: u64)"
proof -
  have "sum_list (map snd m) = (\<Sum>k \<in> set ws. of_nat (count_list ws k))"
    using assms by (simp add: sum_list_counts)
  also have "\<dots> = of_nat (\<Sum>k \<in> set ws. count_list ws k)" by simp
  also have "(\<Sum>k \<in> set ws. count_list ws k) = length ws"
    by (rule sum_count_set) simp_all
  finally show ?thesis .
qed

lemma length_card_keys: "distinct (map fst m) \<Longrightarrow> length m = card (keys m)"
  using distinct_card [of "map fst m"] by (simp add: keys_def)

lemma unat_sum_counts:
  assumes "distinct (map fst m)" "keys m = set ws"
    and "\<And>k. count_of m k = of_nat (count_list ws k)"
    and "length ws < 2 ^ 64"
  shows "(\<Sum>e\<leftarrow>m. unat (snd e)) = length ws"
proof -
  have d: "(\<Sum>e\<leftarrow>m. unat (snd e)) = (\<Sum>k \<in> keys m. unat (count_of m k))" if "distinct (map fst m)" for m :: WordMap
    using that
  proof (induction m)
    case Nil
    then show ?case by simp
  next
    case (Cons e m)
    obtain k c where e: "e = (k, c)" by (cases e)
    from Cons e have nk: "k \<notin> keys m" by (simp add: keys_def)
    have fin: "finite (keys m)" by (simp add: keys_def)
    have "(\<Sum>k' \<in> keys m. unat (count_of (e # m) k')) = (\<Sum>k' \<in> keys m. unat (count_of m k'))"
      using nk by (intro sum.cong refl) (auto simp: e count_of_def)
    moreover have "keys (e # m) = insert k (keys m)" by (simp add: e keys_def)
    moreover have "count_of (e # m) k = c" by (simp add: e count_of_def)
    ultimately show ?case using Cons nk fin by (simp add: e)
  qed
  have "count_list ws k < 2 ^ 64" for k
    using count_le_length [of ws k] assms(4) by simp
  then have u: "unat (of_nat (count_list ws k) :: u64) = count_list ws k" for k
    by (simp add: unat_of_nat)
  have "(\<Sum>e\<leftarrow>m. unat (snd e)) = (\<Sum>k \<in> set ws. count_list ws k)"
    using assms(1,2,3) by (simp add: d u)
  also have "\<dots> = length ws" by (rule sum_count_set) simp_all
  finally show ?thesis .
qed

lemma stats_matchI:
  assumes "distinct (map fst m)" "keys m = set ws"
    and "\<And>k. count_of m k = of_nat (count_list ws k)"
    and "totalWords this = of_nat (length ws)" "uniqueWords this = length m"
  shows "stats_match m this \<and> distinct (map fst m) \<and>
         (length ws < 2 ^ 64 \<longrightarrow> unat (totalWords this) = (\<Sum>e\<leftarrow>m. unat (snd e)))"
  using assms total_is_sum [of m ws] unat_sum_counts [of m ws]
  by (simp add: stats_match_def length_card_keys unat_of_nat)

section \<open>Properties of the counting operations\<close>


lemma par_countWords_run_valid:
  "0 < n \<Longrightarrow> par_countWords n st en this text (par_countWords_run n st en this text)"
proof -
  assume n: "0 < n"
  obtain m a where r: "buildWordMapFromList_run n this (read_words text) = (m, a)"
    by (cases "buildWordMapFromList_run n this (read_words text)")
  from buildWordMapFromList_run_valid [OF n, of this "read_words text"] r
  have "buildWordMapFromList n this (read_words text) (m, a)" by simp
  from par_countWords.intros [OF this, of st en] r show ?thesis
    by (simp add: par_countWords_run_def)
qed

lemma par_countWordsFromFile_run_valid:
  "0 < n \<Longrightarrow>
   par_countWordsFromFile n st en this w f (par_countWordsFromFile_run n st en this w f)"
proof (cases "files w f")
  case None
  from par_countWordsFromFile.cannot_open [OF None, of n st en this] None show ?thesis
    by (simp add: par_countWordsFromFile_run_def)
next
  case (Some content)
  assume n: "0 < n"
  obtain m a where r: "buildWordMapFromList_run n this (read_words content) = (m, a)"
    by (cases "buildWordMapFromList_run n this (read_words content)")
  from buildWordMapFromList_run_valid [OF n, of this "read_words content"] r
  have "buildWordMapFromList n this (read_words content) (m, a)" by simp
  from par_countWordsFromFile.opened [OF Some this, of st en] r Some show ?thesis
    by (simp add: par_countWordsFromFile_run_def)
qed

lemma seq_countWordsFromFile_opened:
  "files w f = Some content \<Longrightarrow>
   seq_countWordsFromFile st en this w f =
     (fst (seq_countWords st en this content), snd (seq_countWords st en this content), w)"
  by (simp add: seq_countWordsFromFile_def seq_countWords_def split: prod.splits)

lemma seq_countWordsFromFile_cannot_open:
  "files w f = None \<Longrightarrow>
   seq_countWordsFromFile st en this w f =
     ([], this\<lparr>executionTime := 0\<rparr>,
      w\<lparr>cerr := cerr w @ ''Error: Cannot open file '' @ f @ endl\<rparr>)"
  by (simp add: seq_countWordsFromFile_def)

lemma par_countWordsFromFile_opened:
  "files w f = Some content \<Longrightarrow>
   par_countWordsFromFile n st en this w f (m, this', w') \<longleftrightarrow>
     par_countWords n st en this content (m, this') \<and> w' = w"
  by (auto elim!: par_countWordsFromFile.cases par_countWords.cases
           intro: par_countWordsFromFile.opened par_countWords.intros)

lemma par_countWordsFromFile_cannot_openD:
  "\<lbrakk>files w f = None; par_countWordsFromFile n st en this w f r\<rbrakk>
   \<Longrightarrow> r = ([], this\<lparr>executionTime := 0\<rparr>,
            w\<lparr>cerr := cerr w @ ''Error: Cannot open file '' @ f @ endl\<rparr>)"
  by (auto elim!: par_countWordsFromFile.cases)

lemma seq_countWords_stats:
  "seq_countWords st en this text = (m, this') \<Longrightarrow> stats_match m this' \<and> distinct (map fst m)"
proof -
  assume a: "seq_countWords st en this text = (m, this')"
  note r = seq_countWords_result [OF a]
  from stats_matchI [of m "counted_words (read_words text)" this'] r
  show ?thesis by simp
qed

lemma countWords_unsigned_sum:
  assumes "length (read_words text) < 2 ^ 64"
  shows "seq_countWords st en this text = (m, this') \<Longrightarrow>
           unat (totalWords this') = (\<Sum>e\<leftarrow>m. unat (snd e))"
    and "par_countWords n st en that text (pm, that') \<Longrightarrow>
           unat (totalWords that') = (\<Sum>e\<leftarrow>pm. unat (snd e))"
proof -
  have c: "length (counted_words ws) \<le> length ws" for ws
    by (simp add: counted_words_def le_trans [OF length_filter_le])
  have i: "length (iterations ws) \<le> length ws" for ws
    by (simp add: iterations_def)
  from assms c [of "read_words text"]
  have 1: "length (counted_words (read_words text)) < 2 ^ 64"
    by simp
  from assms c [of "iterations (read_words text)"] i [of "read_words text"]
  have 2: "length (counted_words (iterations (read_words text))) < 2 ^ 64"
    by simp
  show "unat (totalWords this') = (\<Sum>e\<leftarrow>m. unat (snd e))"
    if a: "seq_countWords st en this text = (m, this')"
    using stats_matchI [of m "counted_words (read_words text)" this']
          seq_countWords_result [OF a] 1
    by simp
  show "unat (totalWords that') = (\<Sum>e\<leftarrow>pm. unat (snd e))"
    if a: "par_countWords n st en that text (pm, that')"
    using stats_matchI [of pm "counted_words (iterations (read_words text))" that']
          par_countWords_result [OF a] 2
    by simp
qed

lemma par_countWords_stats:
  "par_countWords n st en this text (m, this') \<Longrightarrow> stats_match m this' \<and> distinct (map fst m)"
proof -
  assume a: "par_countWords n st en this text (m, this')"
  note r = par_countWords_result [OF a]
  from stats_matchI [of m "counted_words (iterations (read_words text))" this'] r
  show ?thesis by simp
qed

lemma stats_match_empty:
  "stats_match [] this \<longleftrightarrow> totalWords this = 0 \<and> uniqueWords this = 0"
  by (simp add: stats_match_def)

text \<open>
  A call of \<open>countWordsFromFile\<close> on a file that cannot be opened returns normally,
  and it need not leave the statistics in agreement with the map it returns: on a
  counter that holds 6 words, 5 of them unique, from an earlier count, the call returns
  the empty map while \<open>totalWords\<close> is still 6 and \<open>uniqueWords\<close> still 5. So for
  both classes.
\<close>

theorem statistics_stale_after_failed_open:
  "seq_countWordsFromFile 0 1 \<lparr>executionTime = 7, totalWords = 6, uniqueWords = 5\<rparr>
     \<lparr>files = Map.empty, writable = (\<lambda>path. True), cout = [], cerr = []\<rparr> ''missing.txt'' =
     ([], \<lparr>executionTime = 0, totalWords = 6, uniqueWords = 5\<rparr>,
      \<lparr>files = Map.empty, writable = (\<lambda>path. True), cout = [],
         cerr = ''Error: Cannot open file missing.txt'' @ [CHR 0x0A]\<rparr>) \<and>
   \<not> stats_match [] \<lparr>executionTime = 0, totalWords = 6, uniqueWords = 5\<rparr> \<and>
   par_countWordsFromFile 4 0 1
     \<lparr>executionTime = 7, totalWords = 6, uniqueWords = 5, syncMethod = Reduction\<rparr>
     \<lparr>files = Map.empty, writable = (\<lambda>path. True), cout = [], cerr = []\<rparr> ''missing.txt''
     ([], \<lparr>executionTime = 0, totalWords = 6, uniqueWords = 5, syncMethod = Reduction\<rparr>,
      \<lparr>files = Map.empty, writable = (\<lambda>path. True), cout = [],
         cerr = ''Error: Cannot open file missing.txt'' @ [CHR 0x0A]\<rparr>) \<and>
   \<not> stats_match []
       \<lparr>executionTime = 0, totalWords = 6, uniqueWords = 5, syncMethod = Reduction\<rparr>"
proof -
  let ?w = "\<lparr>files = Map.empty, writable = (\<lambda>path. True), cout = [], cerr = []\<rparr>"
  let ?p = "\<lparr>executionTime = 7, totalWords = 6, uniqueWords = 5, syncMethod = Reduction\<rparr>"
  have f: "files ?w ''missing.txt'' = None"
    by simp
  have "par_countWordsFromFile 4 0 1 ?p ?w ''missing.txt''
          ([], ?p\<lparr>executionTime := 0\<rparr>,
           ?w\<lparr>cerr := cerr ?w @ ''Error: Cannot open file '' @ ''missing.txt'' @ endl\<rparr>)"
    using f by (rule par_countWordsFromFile.cannot_open)
  then show ?thesis
    by (simp add: seq_countWordsFromFile_def endl_def stats_match_empty)
qed

text \<open>
  C3. After a counting operation that gets its input has completed (\<open>countWords\<close>,
  or \<open>countWordsFromFile\<close> on a file that opens; sequential, or parallel with the
  merge done), \<open>totalWords\<close> is the sum of the counts of all words of the returned
  frequency map and \<open>uniqueWords\<close> is the number of its keys. When
  \<open>countWordsFromFile\<close> cannot open the file, it returns the empty map and leaves
  \<open>totalWords\<close> and \<open>uniqueWords\<close> as they were, so they agree with the returned map
  exactly when both were 0 before the call.
\<close>

theorem statistics_match_map:
  "(seq_countWords st en c text = (m, c') \<longrightarrow> stats_match m c' \<and> distinct (map fst m)) \<and>
   (par_countWords n st en p text (m, p') \<longrightarrow> stats_match m p' \<and> distinct (map fst m)) \<and>
   (files w f = Some content \<longrightarrow> seq_countWordsFromFile st en c w f = (m, c', w') \<longrightarrow>
      stats_match m c' \<and> distinct (map fst m)) \<and>
   (files w f = Some content \<longrightarrow> par_countWordsFromFile n st en p w f (m, p', w') \<longrightarrow>
      stats_match m p' \<and> distinct (map fst m)) \<and>
   (files w0 f0 = None \<longrightarrow> seq_countWordsFromFile st en c0 w0 f0 = (m0, c0', w0') \<longrightarrow>
      m0 = [] \<and> totalWords c0' = totalWords c0 \<and> uniqueWords c0' = uniqueWords c0 \<and>
      (stats_match m0 c0' \<longleftrightarrow> totalWords c0 = 0 \<and> uniqueWords c0 = 0)) \<and>
   (files w0 f0 = None \<longrightarrow> par_countWordsFromFile n st en p0 w0 f0 (pm0, p0', pw0') \<longrightarrow>
      pm0 = [] \<and> totalWords p0' = totalWords p0 \<and> uniqueWords p0' = uniqueWords p0 \<and>
      (stats_match pm0 p0' \<longleftrightarrow> totalWords p0 = 0 \<and> uniqueWords p0 = 0))"
proof -
  have 1: "stats_match m c' \<and> distinct (map fst m)"
    if "files w f = Some content" "seq_countWordsFromFile st en c w f = (m, c', w')"
  proof -
    from that have "seq_countWords st en c content = (m, c')"
      by (simp add: seq_countWordsFromFile_opened prod_eq_iff)
    then show ?thesis by (rule seq_countWords_stats)
  qed
  have 2: "stats_match m p' \<and> distinct (map fst m)"
    if "files w f = Some content" "par_countWordsFromFile n st en p w f (m, p', w')"
    using that par_countWords_stats [of n st en p content m p']
    by (simp add: par_countWordsFromFile_opened)
  have 3: "m0 = [] \<and> totalWords c0' = totalWords c0 \<and> uniqueWords c0' = uniqueWords c0 \<and>
           (stats_match m0 c0' \<longleftrightarrow> totalWords c0 = 0 \<and> uniqueWords c0 = 0)"
    if "files w0 f0 = None" "seq_countWordsFromFile st en c0 w0 f0 = (m0, c0', w0')"
    using that by (auto simp: seq_countWordsFromFile_cannot_open stats_match_empty)
  have 4: "pm0 = [] \<and> totalWords p0' = totalWords p0 \<and> uniqueWords p0' = uniqueWords p0 \<and>
           (stats_match pm0 p0' \<longleftrightarrow> totalWords p0 = 0 \<and> uniqueWords p0 = 0)"
    if "files w0 f0 = None" "par_countWordsFromFile n st en p0 w0 f0 (pm0, p0', pw0')"
    using par_countWordsFromFile_cannot_openD [OF that] by (simp add: stats_match_empty)
  from 1 2 3 4 seq_countWords_stats [of st en c "text" m c']
       par_countWords_stats [of n st en p "text" m p']
  show ?thesis by blast
qed

theorem statistics_match_map_witness:
  "seq_countWords 0 1 new_WordCounterSequential ''b a b'' =
     ([(''b'', 2), (''a'', 1)], \<lparr>executionTime = 1, totalWords = 3, uniqueWords = 2\<rparr>) \<and>
   par_countWords 2 0 1 (new_WordCounterParallel Atomic) ''b a b''
     ([(''b'', 2), (''a'', 1)],
      \<lparr>executionTime = 1, totalWords = 3, uniqueWords = 2, syncMethod = Atomic\<rparr>) \<and>
   files \<lparr>files = [''in.txt'' \<mapsto> ''b a b''], writable = (\<lambda>path. True), cout = [], cerr = []\<rparr>
     ''in.txt'' = Some ''b a b'' \<and>
   seq_countWordsFromFile 0 1 new_WordCounterSequential
     \<lparr>files = [''in.txt'' \<mapsto> ''b a b''], writable = (\<lambda>path. True), cout = [], cerr = []\<rparr>
     ''in.txt'' =
     ([(''b'', 2), (''a'', 1)], \<lparr>executionTime = 1, totalWords = 3, uniqueWords = 2\<rparr>,
      \<lparr>files = [''in.txt'' \<mapsto> ''b a b''], writable = (\<lambda>path. True), cout = [], cerr = []\<rparr>) \<and>
   par_countWordsFromFile 2 0 1 (new_WordCounterParallel Atomic)
     \<lparr>files = [''in.txt'' \<mapsto> ''b a b''], writable = (\<lambda>path. True), cout = [], cerr = []\<rparr>
     ''in.txt''
     ([(''b'', 2), (''a'', 1)],
      \<lparr>executionTime = 1, totalWords = 3, uniqueWords = 2, syncMethod = Atomic\<rparr>,
      \<lparr>files = [''in.txt'' \<mapsto> ''b a b''], writable = (\<lambda>path. True), cout = [], cerr = []\<rparr>) \<and>
   stats_match [(''b'', 2), (''a'', 1)]
     \<lparr>executionTime = 1, totalWords = 3, uniqueWords = 2\<rparr> \<and>
   stats_match [(''b'', 2), (''a'', 1)]
     \<lparr>executionTime = 1, totalWords = 3, uniqueWords = 2, syncMethod = Atomic\<rparr> \<and>
   files \<lparr>files = [''in.txt'' \<mapsto> ''b a b''], writable = (\<lambda>path. True), cout = [], cerr = []\<rparr>
     ''missing.txt'' = None \<and>
   seq_countWordsFromFile 5 9 \<lparr>executionTime = 1, totalWords = 3, uniqueWords = 2\<rparr>
     \<lparr>files = [''in.txt'' \<mapsto> ''b a b''], writable = (\<lambda>path. True), cout = [], cerr = []\<rparr>
     ''missing.txt'' =
     ([], \<lparr>executionTime = 0, totalWords = 3, uniqueWords = 2\<rparr>,
      \<lparr>files = [''in.txt'' \<mapsto> ''b a b''], writable = (\<lambda>path. True), cout = [],
         cerr = ''Error: Cannot open file missing.txt'' @ [CHR 0x0A]\<rparr>) \<and>
   par_countWordsFromFile 2 5 9
     \<lparr>executionTime = 1, totalWords = 3, uniqueWords = 2, syncMethod = Atomic\<rparr>
     \<lparr>files = [''in.txt'' \<mapsto> ''b a b''], writable = (\<lambda>path. True), cout = [], cerr = []\<rparr>
     ''missing.txt''
     ([], \<lparr>executionTime = 0, totalWords = 3, uniqueWords = 2, syncMethod = Atomic\<rparr>,
      \<lparr>files = [''in.txt'' \<mapsto> ''b a b''], writable = (\<lambda>path. True), cout = [],
         cerr = ''Error: Cannot open file missing.txt'' @ [CHR 0x0A]\<rparr>) \<and>
   \<not> stats_match [] \<lparr>executionTime = 0, totalWords = 3, uniqueWords = 2\<rparr> \<and>
   \<not> stats_match []
       \<lparr>executionTime = 0, totalWords = 3, uniqueWords = 2, syncMethod = Atomic\<rparr>"
proof -
  let ?w = "\<lparr>files = [''in.txt'' \<mapsto> ''b a b''], writable = (\<lambda>path. True), cout = [], cerr = []\<rparr>"
  let ?w' = "\<lparr>files = [''in.txt'' \<mapsto> ''b a b''], writable = (\<lambda>path. True), cout = [],
               cerr = ''Error: Cannot open file missing.txt'' @ [CHR 0x0A]\<rparr>"
  let ?m = "[(''b'', 2), (''a'', 1)] :: WordMap"
  let ?c = "\<lparr>executionTime = 1, totalWords = 3, uniqueWords = 2\<rparr>"
  let ?p = "\<lparr>executionTime = 1, totalWords = 3, uniqueWords = 2, syncMethod = Atomic\<rparr>"
  let ?cz = "\<lparr>executionTime = 0, totalWords = 3, uniqueWords = 2\<rparr>"
  let ?pz = "\<lparr>executionTime = 0, totalWords = 3, uniqueWords = 2, syncMethod = Atomic\<rparr>"
  have l: "seq_loop ''b a b'' ([], 0) = (?m, 3)"
    by code_simp
  have s: "seq_countWords 0 1 new_WordCounterSequential ''b a b'' = (?m, ?c)"
    by (simp add: seq_countWords_def l new_WordCounterSequential_def)
  have b: "buildWordMapFromList_run 2 (new_WordCounterParallel Atomic) (read_words ''b a b'') =
           (?m, \<lparr>executionTime = 0, totalWords = 3, uniqueWords = 0, syncMethod = Atomic\<rparr>)"
    by code_simp
  have "par_countWords_run 2 0 1 (new_WordCounterParallel Atomic) ''b a b'' = (?m, ?p)"
    by (simp add: par_countWords_run_def b)
  with par_countWords_run_valid [of 2 0 1 "new_WordCounterParallel Atomic" "''b a b''"]
  have p: "par_countWords 2 0 1 (new_WordCounterParallel Atomic) ''b a b'' (?m, ?p)"
    by simp
  have f: "files ?w ''in.txt'' = Some ''b a b''"
    by simp
  have sf: "seq_countWordsFromFile 0 1 new_WordCounterSequential ?w ''in.txt'' = (?m, ?c, ?w)"
    by (simp add: seq_countWordsFromFile_def l new_WordCounterSequential_def)
  have pf: "par_countWordsFromFile 2 0 1 (new_WordCounterParallel Atomic) ?w ''in.txt'' (?m, ?p, ?w)"
    using p by (simp add: par_countWordsFromFile_opened [OF f])
  have f0: "files ?w ''missing.txt'' = None"
    by simp
  have s0: "seq_countWordsFromFile 5 9 ?c ?w ''missing.txt'' = ([], ?cz, ?w')"
    by (simp add: seq_countWordsFromFile_def endl_def)
  have "par_countWordsFromFile 2 5 9 ?p ?w ''missing.txt''
          ([], ?p\<lparr>executionTime := 0\<rparr>,
           ?w\<lparr>cerr := cerr ?w @ ''Error: Cannot open file '' @ ''missing.txt'' @ endl\<rparr>)"
    using f0 by (rule par_countWordsFromFile.cannot_open)
  then have p0: "par_countWordsFromFile 2 5 9 ?p ?w ''missing.txt'' ([], ?pz, ?w')"
    by (simp add: endl_def)
  have a: "stats_match ?m ?c \<and> stats_match ?m ?p"
    using statistics_match_map
            [where st = 0 and en = 1 and c = new_WordCounterSequential and ?text = "''b a b''"
               and m = ?m and c' = ?c and n = 2 and p = "new_WordCounterParallel Atomic"
               and p' = ?p and w = ?w and f = "''in.txt''" and content = "''b a b''"
               and w' = ?w]
          s p f sf pf
    by simp
  have b: "\<not> stats_match [] ?cz \<and> \<not> stats_match [] ?pz"
    using statistics_match_map
            [where st = 5 and en = 9 and n = 2 and ?w0.0 = ?w and ?f0.0 = "''missing.txt''"
               and ?c0.0 = ?c and ?m0.0 = "[]" and c0' = ?cz and w0' = ?w'
               and ?p0.0 = ?p and ?pm0.0 = "[]" and p0' = ?pz and pw0' = ?w']
          f0 s0 p0
    by simp
  from a b s p f sf pf f0 s0 p0 show ?thesis
    by simp
qed

text \<open>
  C1. For every list of raw words and every number of threads, the parallel count gives
  the same frequency map and the same total under each of the three synchronization
  methods (reduction, atomic, critical). Whatever the interleaving: every interleaving
  ends, none is stuck before all threads have merged, a team of at least one thread
  returns a result, and any two results, under any two methods, hold the same map
  (the same keys with the same counts) and the same total.
\<close>

theorem strategies_agree:
  "wf {(s', s). step mode s s'} \<and>
   (\<not> joined s \<longrightarrow> (\<exists>s'. step mode s s')) \<and>
   (0 < n \<longrightarrow> (\<exists>r. buildWordMapFromList n (this\<lparr>syncMethod := mode\<rparr>) rawWords r)) \<and>
   (buildWordMapFromList n (this\<lparr>syncMethod := mode\<rparr>) rawWords (m, a) \<longrightarrow>
    buildWordMapFromList n (this\<lparr>syncMethod := mode'\<rparr>) rawWords (m', a') \<longrightarrow>
      map_of m = map_of m' \<and> length m = length m' \<and> totalWords a = totalWords a')"
proof -
  have "map_of m = map_of m' \<and> length m = length m' \<and> totalWords a = totalWords a'"
    if 1: "buildWordMapFromList n (this\<lparr>syncMethod := mode\<rparr>) rawWords (m, a)"
    and 2: "buildWordMapFromList n (this\<lparr>syncMethod := mode'\<rparr>) rawWords (m', a')"
  proof -
    note r = buildWordMapFromList_result [OF 1]
    note r' = buildWordMapFromList_result [OF 2]
    from r(1,2) r'(1,2) have "map_of m = map_of m'" by (intro same_map) simp_all
    moreover from r(1,3) r'(1,3) have "length m = length m'" by (simp add: length_card_keys)
    moreover from r(4) r'(4) have "totalWords a = totalWords a'" by simp
    ultimately show ?thesis by simp
  qed
  moreover have "0 < n \<Longrightarrow> \<exists>r. buildWordMapFromList n (this\<lparr>syncMethod := mode\<rparr>) rawWords r"
    using buildWordMapFromList_run_valid by blast
  ultimately show ?thesis using wf_step [of mode] progress [of s mode] by blast
qed

theorem strategies_agree_witness:
  "\<not> joined (fork [[''b''], [''A!'']]) \<and> (0::nat) < 2 \<and>
   buildWordMapFromList 2 ((new_WordCounterParallel Reduction)\<lparr>syncMethod := Atomic\<rparr>)
     [''b'', ''A!'', ''b'', ''42'']
     ([(''b'', 2), (''a'', 1)],
      \<lparr>executionTime = 0, totalWords = 3, uniqueWords = 0, syncMethod = Atomic\<rparr>) \<and>
   buildWordMapFromList 2 ((new_WordCounterParallel Reduction)\<lparr>syncMethod := Reduction\<rparr>)
     [''b'', ''A!'', ''b'', ''42'']
     ([(''b'', 2), (''a'', 1)],
      \<lparr>executionTime = 0, totalWords = 3, uniqueWords = 0, syncMethod = Reduction\<rparr>) \<and>
   (\<exists>s'. step Atomic (fork [[''b''], [''A!'']]) s') \<and>
   (\<exists>r. buildWordMapFromList 2 ((new_WordCounterParallel Reduction)\<lparr>syncMethod := Atomic\<rparr>)
          [''b'', ''A!'', ''b'', ''42''] r) \<and>
   totalWords \<lparr>executionTime = 0, totalWords = 3, uniqueWords = 0, syncMethod = Atomic\<rparr> =
   totalWords \<lparr>executionTime = 0, totalWords = 3, uniqueWords = 0, syncMethod = Reduction\<rparr>"
proof -
  let ?raw = "[''b'', ''A!'', ''b'', ''42'']"
  let ?m = "[(''b'', 2), (''a'', 1)] :: WordMap"
  let ?a = "\<lparr>executionTime = 0, totalWords = 3, uniqueWords = 0, syncMethod = Atomic\<rparr>"
  let ?r = "\<lparr>executionTime = 0, totalWords = 3, uniqueWords = 0, syncMethod = Reduction\<rparr>"
  have nj: "\<not> joined (fork [[''b''], [''A!'']])"
    by (simp add: joined_def fork_def new_worker_def)
  have "buildWordMapFromList_run 2 ((new_WordCounterParallel Reduction)\<lparr>syncMethod := Atomic\<rparr>) ?raw
        = (?m, ?a)"
    by code_simp
  with buildWordMapFromList_run_valid
         [of 2 "(new_WordCounterParallel Reduction)\<lparr>syncMethod := Atomic\<rparr>" ?raw]
  have 1: "buildWordMapFromList 2 ((new_WordCounterParallel Reduction)\<lparr>syncMethod := Atomic\<rparr>)
             ?raw (?m, ?a)"
    by simp
  have "buildWordMapFromList_run 2 ((new_WordCounterParallel Reduction)\<lparr>syncMethod := Reduction\<rparr>)
          ?raw = (?m, ?r)"
    by code_simp
  with buildWordMapFromList_run_valid
         [of 2 "(new_WordCounterParallel Reduction)\<lparr>syncMethod := Reduction\<rparr>" ?raw]
  have 2: "buildWordMapFromList 2 ((new_WordCounterParallel Reduction)\<lparr>syncMethod := Reduction\<rparr>)
             ?raw (?m, ?r)"
    by simp
  from strategies_agree
         [of Atomic "fork [[''b''], [''A!'']]" 2 "new_WordCounterParallel Reduction" ?raw
             ?m ?a Reduction ?m ?r]
       nj 1 2
  show ?thesis by simp
qed

lemma example_words: "counted_words (read_words ''the Cat sat on the MAT'') = [''the'', ''cat'', ''sat'', ''on'', ''the'', ''mat'']"
  by code_simp

lemma example_read: "length (read_words ''the Cat sat on the MAT'') = 6"
  by code_simp

lemma example_seq: "seq_loop ''the Cat sat on the MAT'' ([], 0) = ([(''the'', 2), (''cat'', 1), (''sat'', 1), (''on'', 1), (''mat'', 1)], 6)"
  by code_simp

lemma ex_keys: "keys [(''the'', 2), (''cat'', 1), (''sat'', 1), (''on'', 1), (''mat'', 1)] = set [''the'', ''cat'', ''sat'', ''on'', ''the'', ''mat'']"
  by (auto simp: keys_def)

lemma ex_count: "count_of [(''the'', 2), (''cat'', 1), (''sat'', 1), (''on'', 1), (''mat'', 1)] k = of_nat (count_list [''the'', ''cat'', ''sat'', ''on'', ''the'', ''mat''] k)"
  by (auto simp: count_of_def)

lemma ex_card: "card (set [''the'', ''cat'', ''sat'', ''on'', ''the'', ''mat'']) = 5"
  by code_simp

text \<open>
  C5. \<open>countWords\<close> on the text \<open>the Cat sat on the MAT\<close> gives the frequency map
  the: 2, cat: 1, sat: 1, on: 1, mat: 1, with \<open>totalWords\<close> 6 and \<open>uniqueWords\<close> 5:
  the sequential counter, and the parallel counter for every team of at least one
  thread, every synchronization method and every interleaving.
\<close>

theorem countWords_example:
  "(seq_countWords st en c ''the Cat sat on the MAT'' = (m, c') \<longrightarrow>
      map_of m = map_of [(''the'', 2), (''cat'', 1), (''sat'', 1), (''on'', 1), (''mat'', 1)] \<and>
      distinct (map fst m) \<and> length m = 5 \<and>
      totalWords c' = 6 \<and> uniqueWords c' = 5) \<and>
   (0 < n \<longrightarrow> (\<exists>r. par_countWords n st en p ''the Cat sat on the MAT'' r)) \<and>
   (par_countWords n st en p ''the Cat sat on the MAT'' (pm, p') \<longrightarrow>
      map_of pm = map_of [(''the'', 2), (''cat'', 1), (''sat'', 1), (''on'', 1), (''mat'', 1)] \<and>
      distinct (map fst pm) \<and> length pm = 5 \<and>
      totalWords p' = 6 \<and> uniqueWords p' = 5)"
proof -
  let ?t = "''the Cat sat on the MAT''"
  let ?e = "[(''the'', 2), (''cat'', 1), (''sat'', 1), (''on'', 1), (''mat'', 1)] :: WordMap"
  have 1: "map_of m = map_of ?e \<and> distinct (map fst m) \<and> length m = 5 \<and>
           totalWords c' = 6 \<and> uniqueWords c' = 5"
    if "seq_countWords st en c ?t = (m, c')"
    using that by (auto simp: seq_countWords_def example_seq)
  have 2: "map_of pm = map_of ?e \<and> distinct (map fst pm) \<and> length pm = 5 \<and>
           totalWords p' = 6 \<and> uniqueWords p' = 5"
    if a: "par_countWords n st en p ?t (pm, p')"
  proof -
    have "iterations (read_words ?t) = read_words ?t"
      by (rule iterations_small) (simp add: example_read)
    with par_countWords_result [OF a] example_words
    have k: "keys pm = set [''the'', ''cat'', ''sat'', ''on'', ''the'', ''mat'']"
      and c: "\<And>k. count_of pm k =
                of_nat (count_list [''the'', ''cat'', ''sat'', ''on'', ''the'', ''mat''] k)"
      and d: "distinct (map fst pm)"
      and p: "p' = p\<lparr>totalWords :=
                        of_nat (length [''the'', ''cat'', ''sat'', ''on'', ''the'', ''mat'']),
                      uniqueWords := length pm, executionTime := en - st\<rparr>"
      by simp_all
    from k c have "map_of pm = map_of ?e"
      by (intro same_map) (simp_all only: ex_keys ex_count)
    moreover from d k have "length pm = 5"
      by (simp only: length_card_keys ex_card)
    ultimately show ?thesis using d p by simp
  qed
  from 1 2 par_countWords_exists [of n st en p ?t] show ?thesis by blast
qed

theorem countWords_example_witness:
  "seq_countWords 0 1 new_WordCounterSequential ''the Cat sat on the MAT'' =
     ([(''the'', 2), (''cat'', 1), (''sat'', 1), (''on'', 1), (''mat'', 1)],
      \<lparr>executionTime = 1, totalWords = 6, uniqueWords = 5\<rparr>) \<and>
   (0::nat) < 3 \<and>
   par_countWords 3 0 1 (new_WordCounterParallel Critical) ''the Cat sat on the MAT''
     ([(''the'', 2), (''cat'', 1), (''sat'', 1), (''on'', 1), (''mat'', 1)],
      \<lparr>executionTime = 1, totalWords = 6, uniqueWords = 5, syncMethod = Critical\<rparr>) \<and>
   (\<exists>r. par_countWords 3 0 1 (new_WordCounterParallel Critical) ''the Cat sat on the MAT'' r)"
proof -
  let ?t = "''the Cat sat on the MAT''"
  let ?e = "[(''the'', 2), (''cat'', 1), (''sat'', 1), (''on'', 1), (''mat'', 1)] :: WordMap"
  let ?c = "\<lparr>executionTime = 1, totalWords = 6, uniqueWords = 5\<rparr>"
  let ?p = "\<lparr>executionTime = 1, totalWords = 6, uniqueWords = 5, syncMethod = Critical\<rparr>"
  have s: "seq_countWords 0 1 new_WordCounterSequential ?t = (?e, ?c)"
    by (simp add: seq_countWords_def example_seq new_WordCounterSequential_def)
  have b: "buildWordMapFromList_run 3 (new_WordCounterParallel Critical) (read_words ?t) =
           (?e, \<lparr>executionTime = 0, totalWords = 6, uniqueWords = 0, syncMethod = Critical\<rparr>)"
    by code_simp
  have "par_countWords_run 3 0 1 (new_WordCounterParallel Critical) ?t = (?e, ?p)"
    by (simp add: par_countWords_run_def b)
  with par_countWords_run_valid [of 3 0 1 "new_WordCounterParallel Critical" ?t]
  have p: "par_countWords 3 0 1 (new_WordCounterParallel Critical) ?t (?e, ?p)"
    by simp
  from countWords_example [of 0 1 new_WordCounterSequential ?e ?c 3
                              "new_WordCounterParallel Critical" ?e ?p] s p
  show ?thesis by simp
qed

text \<open>
  C7. When the file cannot be opened, \<open>countWordsFromFile\<close> writes the message
  \<open>Error: Cannot open file\<close> with the file name to \<open>std::cerr\<close>, returns an empty
  frequency map and sets \<open>executionTime\<close> to zero. It returns normally: the
  sequential function has this value, and the parallel one has this result and no
  other. Nothing else of the counter or of the environment changes.
\<close>

theorem cannot_open_input:
  "files w filename = None \<longrightarrow>
     seq_countWordsFromFile st en c w filename =
       ([], c\<lparr>executionTime := 0\<rparr>,
        w\<lparr>cerr := cerr w @ ''Error: Cannot open file '' @ filename @ endl\<rparr>) \<and>
     par_countWordsFromFile n st en p w filename
       ([], p\<lparr>executionTime := 0\<rparr>,
        w\<lparr>cerr := cerr w @ ''Error: Cannot open file '' @ filename @ endl\<rparr>) \<and>
     (par_countWordsFromFile n st en p w filename r \<longrightarrow>
        r = ([], p\<lparr>executionTime := 0\<rparr>,
             w\<lparr>cerr := cerr w @ ''Error: Cannot open file '' @ filename @ endl\<rparr>))"
  using par_countWordsFromFile_cannot_openD [of w filename n st en p r]
        par_countWordsFromFile.cannot_open [of w filename n st en p]
  by (simp add: seq_countWordsFromFile_cannot_open)

theorem cannot_open_input_witness:
  "files \<lparr>files = Map.empty, writable = (\<lambda>path. True), cout = [], cerr = []\<rparr> ''missing.txt'' = None \<and>
   seq_countWordsFromFile 0 1 \<lparr>executionTime = 7, totalWords = 6, uniqueWords = 5\<rparr>
     \<lparr>files = Map.empty, writable = (\<lambda>path. True), cout = [], cerr = []\<rparr> ''missing.txt'' =
     ([], \<lparr>executionTime = 0, totalWords = 6, uniqueWords = 5\<rparr>,
      \<lparr>files = Map.empty, writable = (\<lambda>path. True), cout = [],
         cerr = ''Error: Cannot open file missing.txt'' @ [CHR 0x0A]\<rparr>) \<and>
   par_countWordsFromFile 4 0 1
     \<lparr>executionTime = 7, totalWords = 6, uniqueWords = 5, syncMethod = Atomic\<rparr>
     \<lparr>files = Map.empty, writable = (\<lambda>path. True), cout = [], cerr = []\<rparr> ''missing.txt''
     ([], \<lparr>executionTime = 0, totalWords = 6, uniqueWords = 5, syncMethod = Atomic\<rparr>,
      \<lparr>files = Map.empty, writable = (\<lambda>path. True), cout = [],
         cerr = ''Error: Cannot open file missing.txt'' @ [CHR 0x0A]\<rparr>)"
  using cannot_open_input
          [of "\<lparr>files = Map.empty, writable = (\<lambda>path. True), cout = [], cerr = []\<rparr>"
              "''missing.txt''" 0 1 "\<lparr>executionTime = 7, totalWords = 6, uniqueWords = 5\<rparr>"
              4 "\<lparr>executionTime = 7, totalWords = 6, uniqueWords = 5, syncMethod = Atomic\<rparr>"]
  by (simp add: endl_def)

text \<open>
  C9. Running \<open>countWordsFromFile\<close> a second time on the same file, not modified in
  between, returns the same frequency map and leaves the same \<open>totalWords\<close> as the
  first run; only the elapsed time may differ. For the parallel counter this holds
  whatever the team sizes and interleavings of the two runs, the map being the same
  in content.
\<close>

theorem countWordsFromFile_idempotent:
  "(files w2 f = files w f \<longrightarrow>
    seq_countWordsFromFile st en c w f = (m1, c1, w1) \<longrightarrow>
    seq_countWordsFromFile st' en' c1 w2 f = (m2, c2, w3) \<longrightarrow>
      m1 = m2 \<and> totalWords c1 = totalWords c2 \<and> uniqueWords c1 = uniqueWords c2) \<and>
   (files w2 f = files w f \<longrightarrow>
    par_countWordsFromFile n st en p w f (pm1, p1, pw1) \<longrightarrow>
    par_countWordsFromFile n' st' en' p1 w2 f (pm2, p2, pw3) \<longrightarrow>
      map_of pm1 = map_of pm2 \<and> length pm1 = length pm2 \<and>
      totalWords p1 = totalWords p2 \<and> uniqueWords p1 = uniqueWords p2)"
proof -
  have 1: "m1 = m2 \<and> totalWords c1 = totalWords c2 \<and> uniqueWords c1 = uniqueWords c2"
    if "files w2 f = files w f" "seq_countWordsFromFile st en c w f = (m1, c1, w1)"
       "seq_countWordsFromFile st' en' c1 w2 f = (m2, c2, w3)"
    using that by (auto simp: seq_countWordsFromFile_def split: option.splits prod.splits)
  have 2: "map_of pm1 = map_of pm2 \<and> length pm1 = length pm2 \<and>
           totalWords p1 = totalWords p2 \<and> uniqueWords p1 = uniqueWords p2"
    if f: "files w2 f = files w f"
    and a: "par_countWordsFromFile n st en p w f (pm1, p1, pw1)"
    and b: "par_countWordsFromFile n' st' en' p1 w2 f (pm2, p2, pw3)"
  proof (cases "files w f")
    case None
    with f have "files w2 f = None" by simp
    from par_countWordsFromFile_cannot_openD [OF None a]
         par_countWordsFromFile_cannot_openD [OF this b]
    show ?thesis by simp
  next
    case (Some content)
    with f have s2: "files w2 f = Some content" by simp
    from a Some have a': "par_countWords n st en p content (pm1, p1)"
      by (simp add: par_countWordsFromFile_opened)
    from b s2 have b': "par_countWords n' st' en' p1 content (pm2, p2)"
      by (simp add: par_countWordsFromFile_opened)
    note r = par_countWords_result [OF a']
    note r' = par_countWords_result [OF b']
    from r(1,2) r'(1,2) have "map_of pm1 = map_of pm2" by (intro same_map) simp_all
    moreover from r(1,3) r'(1,3) have l: "length pm1 = length pm2" by (simp add: length_card_keys)
    moreover from r(4) r'(4) l have "totalWords p1 = totalWords p2" "uniqueWords p1 = uniqueWords p2"
      by simp_all
    ultimately show ?thesis by simp
  qed
  from 1 2 show ?thesis by blast
qed

theorem countWordsFromFile_idempotent_witness:
  "files \<lparr>files = [''in.txt'' \<mapsto> ''b a b''], writable = (\<lambda>path. True), cout = [], cerr = []\<rparr> ''in.txt'' =
   files \<lparr>files = [''in.txt'' \<mapsto> ''b a b''], writable = (\<lambda>path. True), cout = [], cerr = []\<rparr> ''in.txt'' \<and>
   seq_countWordsFromFile 0 1 new_WordCounterSequential
     \<lparr>files = [''in.txt'' \<mapsto> ''b a b''], writable = (\<lambda>path. True), cout = [], cerr = []\<rparr>
     ''in.txt'' =
     ([(''b'', 2), (''a'', 1)], \<lparr>executionTime = 1, totalWords = 3, uniqueWords = 2\<rparr>,
      \<lparr>files = [''in.txt'' \<mapsto> ''b a b''], writable = (\<lambda>path. True), cout = [], cerr = []\<rparr>) \<and>
   seq_countWordsFromFile 5 9 \<lparr>executionTime = 1, totalWords = 3, uniqueWords = 2\<rparr>
     \<lparr>files = [''in.txt'' \<mapsto> ''b a b''], writable = (\<lambda>path. True), cout = [], cerr = []\<rparr>
     ''in.txt'' =
     ([(''b'', 2), (''a'', 1)], \<lparr>executionTime = 4, totalWords = 3, uniqueWords = 2\<rparr>,
      \<lparr>files = [''in.txt'' \<mapsto> ''b a b''], writable = (\<lambda>path. True), cout = [], cerr = []\<rparr>) \<and>
   par_countWordsFromFile 2 0 1 (new_WordCounterParallel Atomic)
     \<lparr>files = [''in.txt'' \<mapsto> ''b a b''], writable = (\<lambda>path. True), cout = [], cerr = []\<rparr>
     ''in.txt''
     ([(''b'', 2), (''a'', 1)],
      \<lparr>executionTime = 1, totalWords = 3, uniqueWords = 2, syncMethod = Atomic\<rparr>,
      \<lparr>files = [''in.txt'' \<mapsto> ''b a b''], writable = (\<lambda>path. True), cout = [], cerr = []\<rparr>) \<and>
   par_countWordsFromFile 3 5 9
     \<lparr>executionTime = 1, totalWords = 3, uniqueWords = 2, syncMethod = Atomic\<rparr>
     \<lparr>files = [''in.txt'' \<mapsto> ''b a b''], writable = (\<lambda>path. True), cout = [], cerr = []\<rparr>
     ''in.txt''
     ([(''b'', 2), (''a'', 1)],
      \<lparr>executionTime = 4, totalWords = 3, uniqueWords = 2, syncMethod = Atomic\<rparr>,
      \<lparr>files = [''in.txt'' \<mapsto> ''b a b''], writable = (\<lambda>path. True), cout = [], cerr = []\<rparr>) \<and>
   totalWords \<lparr>executionTime = 1, totalWords = 3, uniqueWords = 2\<rparr> =
   totalWords \<lparr>executionTime = 4, totalWords = 3, uniqueWords = 2\<rparr>"
proof -
  let ?w = "\<lparr>files = [''in.txt'' \<mapsto> ''b a b''], writable = (\<lambda>path. True), cout = [], cerr = []\<rparr>"
  let ?m = "[(''b'', 2), (''a'', 1)] :: WordMap"
  let ?c1 = "\<lparr>executionTime = 1, totalWords = 3, uniqueWords = 2\<rparr>"
  let ?c2 = "\<lparr>executionTime = 4, totalWords = 3, uniqueWords = 2\<rparr>"
  let ?p1 = "\<lparr>executionTime = 1, totalWords = 3, uniqueWords = 2, syncMethod = Atomic\<rparr>"
  let ?p2 = "\<lparr>executionTime = 4, totalWords = 3, uniqueWords = 2, syncMethod = Atomic\<rparr>"
  have l: "seq_loop ''b a b'' ([], 0) = (?m, 3)"
    by code_simp
  have s1: "seq_countWordsFromFile 0 1 new_WordCounterSequential ?w ''in.txt'' = (?m, ?c1, ?w)"
    by (simp add: seq_countWordsFromFile_def l new_WordCounterSequential_def)
  have s2: "seq_countWordsFromFile 5 9 ?c1 ?w ''in.txt'' = (?m, ?c2, ?w)"
    by (simp add: seq_countWordsFromFile_def l)
  have b1: "buildWordMapFromList_run 2 (new_WordCounterParallel Atomic) (read_words ''b a b'') =
           (?m, \<lparr>executionTime = 0, totalWords = 3, uniqueWords = 0, syncMethod = Atomic\<rparr>)"
    by code_simp
  have b2: "buildWordMapFromList_run 3 ?p1 (read_words ''b a b'') = (?m, ?p1)"
    by code_simp
  have "par_countWordsFromFile_run 2 0 1 (new_WordCounterParallel Atomic) ?w ''in.txt'' = (?m, ?p1, ?w)"
    by (simp add: par_countWordsFromFile_run_def b1)
  with par_countWordsFromFile_run_valid [of 2 0 1 "new_WordCounterParallel Atomic" ?w "''in.txt''"]
  have p1: "par_countWordsFromFile 2 0 1 (new_WordCounterParallel Atomic) ?w ''in.txt'' (?m, ?p1, ?w)"
    by simp
  have "par_countWordsFromFile_run 3 5 9 ?p1 ?w ''in.txt'' = (?m, ?p2, ?w)"
    by (simp add: par_countWordsFromFile_run_def b2)
  with par_countWordsFromFile_run_valid [of 3 5 9 ?p1 ?w "''in.txt''"]
  have p2: "par_countWordsFromFile 3 5 9 ?p1 ?w ''in.txt'' (?m, ?p2, ?w)"
    by simp
  from countWordsFromFile_idempotent
         [of ?w "''in.txt''" ?w 0 1 new_WordCounterSequential ?m ?c1 ?w 5 9 ?m ?c2 ?w
             2 "new_WordCounterParallel Atomic" ?m ?p1 ?w 3 ?m ?p2 ?w]
       s1 s2 p1 p2
  show ?thesis by simp
qed

text \<open>
  C10. When \<open>countWordsFromFile\<close> cannot open the file, the only field of the counter
  that changes is \<open>executionTime\<close>, set to zero: \<open>totalWords\<close> and \<open>uniqueWords\<close>
  keep their values, so \<open>getTotalWords\<close> and \<open>getUniqueWords\<close> return what the
  previous counting operation left, and zero on a counter fresh from its constructor.
\<close>

theorem cannot_open_keeps_counts:
  "files w f = None \<longrightarrow>
     (seq_countWordsFromFile st en c w f = (m, c', w') \<longrightarrow>
        c' = c\<lparr>executionTime := 0\<rparr> \<and>
        getTotalWords c' = getTotalWords c \<and> getUniqueWords c' = getUniqueWords c) \<and>
     (par_countWordsFromFile n st en p w f (pm, p', pw') \<longrightarrow>
        p' = p\<lparr>executionTime := 0\<rparr> \<and>
        getTotalWords p' = getTotalWords p \<and> getUniqueWords p' = getUniqueWords p) \<and>
     (seq_countWordsFromFile st en new_WordCounterSequential w f = (m, c', w') \<longrightarrow>
        getTotalWords c' = 0 \<and> getUniqueWords c' = 0) \<and>
     (par_countWordsFromFile n st en (new_WordCounterParallel mode) w f (pm, p', pw') \<longrightarrow>
        getTotalWords p' = 0 \<and> getUniqueWords p' = 0)"
proof -
  have par: "p' = q\<lparr>executionTime := 0\<rparr>"
    if "files w f = None" "par_countWordsFromFile n st en q w f (pm, p', pw')" for q
    using par_countWordsFromFile_cannot_openD [OF that] by simp
  have 1: "c' = c\<lparr>executionTime := 0\<rparr> \<and>
           getTotalWords c' = getTotalWords c \<and> getUniqueWords c' = getUniqueWords c"
    if "files w f = None" "seq_countWordsFromFile st en c w f = (m, c', w')" for c
    using that
    by (auto simp: seq_countWordsFromFile_cannot_open getTotalWords_def getUniqueWords_def)
  have 2: "p' = q\<lparr>executionTime := 0\<rparr> \<and>
           getTotalWords p' = getTotalWords q \<and> getUniqueWords p' = getUniqueWords q"
    if "files w f = None" "par_countWordsFromFile n st en q w f (pm, p', pw')" for q
    using par [OF that] by (simp add: getTotalWords_def getUniqueWords_def)
  have 3: "getTotalWords c' = 0 \<and> getUniqueWords c' = 0"
    if "files w f = None"
       "seq_countWordsFromFile st en new_WordCounterSequential w f = (m, c', w')"
    using 1 [OF that]
    by (simp add: getTotalWords_def getUniqueWords_def new_WordCounterSequential_def)
  have 4: "getTotalWords p' = 0 \<and> getUniqueWords p' = 0"
    if "files w f = None"
       "par_countWordsFromFile n st en (new_WordCounterParallel mode) w f (pm, p', pw')"
    using 2 [OF that]
    by (simp add: getTotalWords_def getUniqueWords_def new_WordCounterParallel_def)
  from 1 [of c] 2 [of p] 3 4 show ?thesis by simp
qed

theorem cannot_open_keeps_counts_witness:
  "files \<lparr>files = Map.empty, writable = (\<lambda>path. True), cout = [], cerr = []\<rparr> ''missing.txt'' = None \<and>
   seq_countWordsFromFile 0 1 \<lparr>executionTime = 7, totalWords = 6, uniqueWords = 5\<rparr>
     \<lparr>files = Map.empty, writable = (\<lambda>path. True), cout = [], cerr = []\<rparr> ''missing.txt'' =
     ([], \<lparr>executionTime = 0, totalWords = 6, uniqueWords = 5\<rparr>,
      \<lparr>files = Map.empty, writable = (\<lambda>path. True), cout = [],
         cerr = ''Error: Cannot open file missing.txt'' @ [CHR 0x0A]\<rparr>) \<and>
   par_countWordsFromFile 4 0 1
     \<lparr>executionTime = 7, totalWords = 6, uniqueWords = 5, syncMethod = Atomic\<rparr>
     \<lparr>files = Map.empty, writable = (\<lambda>path. True), cout = [], cerr = []\<rparr> ''missing.txt''
     ([], \<lparr>executionTime = 0, totalWords = 6, uniqueWords = 5, syncMethod = Atomic\<rparr>,
      \<lparr>files = Map.empty, writable = (\<lambda>path. True), cout = [],
         cerr = ''Error: Cannot open file missing.txt'' @ [CHR 0x0A]\<rparr>) \<and>
   getTotalWords \<lparr>executionTime = 0, totalWords = 6, uniqueWords = 5\<rparr> = 6 \<and>
   getUniqueWords \<lparr>executionTime = 0, totalWords = 6, uniqueWords = 5, syncMethod = Atomic\<rparr> = 5"
proof -
  let ?w = "\<lparr>files = Map.empty, writable = (\<lambda>path. True), cout = [], cerr = []\<rparr>"
  let ?w' = "\<lparr>files = Map.empty, writable = (\<lambda>path. True), cout = [],
               cerr = ''Error: Cannot open file missing.txt'' @ [CHR 0x0A]\<rparr>"
  let ?c = "\<lparr>executionTime = 7, totalWords = 6, uniqueWords = 5\<rparr>"
  let ?c' = "\<lparr>executionTime = 0, totalWords = 6, uniqueWords = 5\<rparr>"
  let ?p = "\<lparr>executionTime = 7, totalWords = 6, uniqueWords = 5, syncMethod = Atomic\<rparr>"
  let ?p' = "\<lparr>executionTime = 0, totalWords = 6, uniqueWords = 5, syncMethod = Atomic\<rparr>"
  have f: "files ?w ''missing.txt'' = None"
    by simp
  have s: "seq_countWordsFromFile 0 1 ?c ?w ''missing.txt'' = ([], ?c', ?w')"
    by (simp add: seq_countWordsFromFile_def endl_def)
  have "par_countWordsFromFile 4 0 1 ?p ?w ''missing.txt''
          ([], ?p\<lparr>executionTime := 0\<rparr>,
           ?w\<lparr>cerr := cerr ?w @ ''Error: Cannot open file '' @ ''missing.txt'' @ endl\<rparr>)"
    using f by (rule par_countWordsFromFile.cannot_open)
  then have p: "par_countWordsFromFile 4 0 1 ?p ?w ''missing.txt'' ([], ?p', ?w')"
    by (simp add: endl_def)
  from cannot_open_keeps_counts [of ?w "''missing.txt''" 0 1 ?c "[]" ?c' ?w' 4 ?p "[]" ?p' ?w' Atomic]
       f s p
  show ?thesis by (simp add: getTotalWords_def getUniqueWords_def)
qed

section \<open>Failure to open the output file\<close>


lemma saveResults_unwritable:
  "\<not> writable w filename \<Longrightarrow>
   saveResults show_fixed2 std_sort this w wordMap filename topN =
     w\<lparr>cerr := cerr w @ ''Error: Cannot create output file '' @ filename @ endl\<rparr>"
  by (simp add: saveResults_def)

lemma main_tail_shape:
  "wordMap \<noteq> [] \<Longrightarrow>
   \<exists>text. main_tail show_fixed2 show_fixed4 std_sort this wordMap w filename topN =
     (0, (saveResults show_fixed2 std_sort this (w\<lparr>cout := cout w @ text\<rparr>) wordMap filename topN)
           \<lparr>cout := cout (saveResults show_fixed2 std_sort this (w\<lparr>cout := cout w @ text\<rparr>)
                           wordMap filename topN) @
                    endl @ ''Processing complete!'' @ endl @
                    ''==========================================='' @ endl\<rparr>)"
  by (simp only: main_tail_def Let_def if_False) (rule exI, rule refl)

lemma main_tail_unwritable:
  assumes "\<not> writable w filename" "wordMap \<noteq> []"
  shows "fst (main_tail show_fixed2 show_fixed4 std_sort this wordMap w filename topN) = 0"
    and "files (snd (main_tail show_fixed2 show_fixed4 std_sort this wordMap w filename topN)) =
          files w"
    and "cerr (snd (main_tail show_fixed2 show_fixed4 std_sort this wordMap w filename topN)) =
          cerr w @ ''Error: Cannot create output file '' @ filename @ endl"
    and "\<exists>before.
           cout (snd (main_tail show_fixed2 show_fixed4 std_sort this wordMap w filename topN)) =
             before @ endl @ ''Processing complete!'' @ endl @
             ''==========================================='' @ endl"
proof -
  from main_tail_shape [OF assms(2)] obtain t where
    m: "main_tail show_fixed2 show_fixed4 std_sort this wordMap w filename topN =
     (0, (saveResults show_fixed2 std_sort this (w\<lparr>cout := cout w @ t\<rparr>) wordMap filename topN)
           \<lparr>cout := cout (saveResults show_fixed2 std_sort this (w\<lparr>cout := cout w @ t\<rparr>)
                           wordMap filename topN) @
                    endl @ ''Processing complete!'' @ endl @
                    ''==========================================='' @ endl\<rparr>)"
    by blast
  from assms(1) have "\<not> writable (w\<lparr>cout := cout w @ t\<rparr>) filename"
    by simp
  note s = saveResults_unwritable [OF this, of show_fixed2 std_sort this wordMap topN]
  show "fst (main_tail show_fixed2 show_fixed4 std_sort this wordMap w filename topN) = 0"
    by (simp only: m fst_conv)
  show "files (snd (main_tail show_fixed2 show_fixed4 std_sort this wordMap w filename topN)) =
          files w"
    by (simp add: m s)
  show "cerr (snd (main_tail show_fixed2 show_fixed4 std_sort this wordMap w filename topN)) =
          cerr w @ ''Error: Cannot create output file '' @ filename @ endl"
    by (simp add: m s)
  show "\<exists>before.
           cout (snd (main_tail show_fixed2 show_fixed4 std_sort this wordMap w filename topN)) =
             before @ endl @ ''Processing complete!'' @ endl @
             ''==========================================='' @ endl"
    by (rule exI [of _ "cout w @ t"]) (simp add: m s)
qed

lemma seq_countWordsFromFile_nonempty:
  assumes "files w inputFile = Some content" "counted_words (read_words content) \<noteq> []"
  shows "\<exists>m c. seq_countWordsFromFile st en this w inputFile = (m, c, w) \<and> m \<noteq> []"
proof -
  obtain m c where r: "seq_countWords st en this content = (m, c)"
    by (cases "seq_countWords st en this content")
  from seq_countWords_result(1) [OF r] assms(2) have "m \<noteq> []"
    by (auto simp: keys_def)
  with r assms(1) show ?thesis
    by (simp add: seq_countWordsFromFile_opened)
qed

lemma seq_main_unwritable:
  assumes "files w inputFile = Some content" "counted_words (read_words content) \<noteq> []"
    and "\<not> writable w outputFile"
  shows "\<exists>w'. seq_main stoi show_fixed2 show_fixed4 std_sort st en w program
                 [inputFile, outputFile] = Some (0, w') \<and>
              files w' = files w \<and>
              cerr w' = cerr w @ ''Error: Cannot create output file '' @ outputFile @ endl"
proof -
  have "\<exists>text. seq_main stoi show_fixed2 show_fixed4 std_sort st en w program
                 [inputFile, outputFile] =
          (let (wordFreq, counter, w2) =
                 seq_countWordsFromFile st en new_WordCounterSequential
                   (w\<lparr>cout := cout w @ text\<rparr>) inputFile
           in Some (main_tail show_fixed2 show_fixed4 std_sort counter wordFreq w2 outputFile 100))"
    by (simp add: seq_main_def Let_def del: append_assoc) (rule exI, rule refl)
  then obtain t where
    m: "seq_main stoi show_fixed2 show_fixed4 std_sort st en w program [inputFile, outputFile] =
          (let (wordFreq, counter, w2) =
                 seq_countWordsFromFile st en new_WordCounterSequential
                   (w\<lparr>cout := cout w @ t\<rparr>) inputFile
           in Some (main_tail show_fixed2 show_fixed4 std_sort counter wordFreq w2 outputFile 100))"
    by blast
  let ?w1 = "w\<lparr>cout := cout w @ t\<rparr>"
  from assms(1) have "files ?w1 inputFile = Some content" by simp
  from seq_countWordsFromFile_nonempty [OF this assms(2), of st en new_WordCounterSequential]
  obtain wm c where r: "seq_countWordsFromFile st en new_WordCounterSequential ?w1 inputFile = (wm, c, ?w1)"
    and ne: "wm \<noteq> []" by blast
  from assms(3) have nw: "\<not> writable ?w1 outputFile" by simp
  note T = main_tail_unwritable [OF nw ne, of show_fixed2 show_fixed4 std_sort c 100]
  have "seq_main stoi show_fixed2 show_fixed4 std_sort st en w program [inputFile, outputFile] =
        Some (main_tail show_fixed2 show_fixed4 std_sort c wm ?w1 outputFile 100)"
    by (simp add: m r)
  with T(1,2,3) show ?thesis
    by (cases "main_tail show_fixed2 show_fixed4 std_sort c wm ?w1 outputFile 100") simp
qed

lemma par_countWordsFromFile_nonempty:
  assumes "files w inputFile = Some content"
    and "counted_words (iterations (read_words content)) \<noteq> []"
    and "par_countWordsFromFile n st en this w inputFile (m, c, w2)"
  shows "m \<noteq> [] \<and> w2 = w"
proof -
  from assms(1,3) have p: "par_countWords n st en this content (m, c)" and w: "w2 = w"
    by (simp_all add: par_countWordsFromFile_opened)
  from par_countWords_result(1) [OF p] assms(2) have "m \<noteq> []"
    by (auto simp: keys_def)
  with w show ?thesis by simp
qed

lemma par_main_unwritable:
  assumes "files w inputFile = Some content"
    and "counted_words (iterations (read_words content)) \<noteq> []"
    and "\<not> writable w outputFile"
    and "par_main stoi show_fixed2 show_fixed4 std_sort max_threads st en w program
           [inputFile, outputFile] r"
  shows "\<exists>w'. r = Some (0, w') \<and> files w' = files w \<and>
              cerr w' = cerr w @ ''Error: Cannot create output file '' @ outputFile @ endl"
  using assms(4)
proof (cases rule: par_main.cases)
  case usage
  then show ?thesis by simp
next
  case bad_top_n
  then show ?thesis by simp
next
  case (bad_num_threads topN)
  then show ?thesis by simp
next
  case (run inputFile' outputFile' topN numThreads syncModeStr num_threads w1 wordFreq counter w2)
  from run(3,4) have i: "inputFile' = inputFile" "outputFile' = outputFile" by simp_all
  from run(9) have w1: "files w1 = files w" "writable w1 = writable w" "cerr w1 = cerr w"
    by simp_all
  from assms(1) w1 have "files w1 inputFile = Some content" by simp
  from par_countWordsFromFile_nonempty [OF this assms(2) run(10) [unfolded i]]
  have ne: "wordFreq \<noteq> []" and w2: "w2 = w1" by simp_all
  from assms(3) w1 have nw: "\<not> writable w1 outputFile" by simp
  note T = main_tail_unwritable [OF nw ne, of show_fixed2 show_fixed4 std_sort counter topN]
  from T(1,2,3) run(1) w1 show ?thesis
    unfolding i w2
    by (cases "main_tail show_fixed2 show_fixed4 std_sort counter wordFreq w1 outputFile topN") simp
qed

lemma par_main_returns:
  assumes "0 < max_threads"
  shows "\<exists>r. par_main stoi show_fixed2 show_fixed4 std_sort max_threads st en w program
               [inputFile, outputFile] r"
proof -
  let ?args = "[inputFile, outputFile]"
  let ?p = "new_WordCounterParallel (parseSyncMethod ''reduction'')"
  define w1 where "w1 = w\<lparr>cout := cout w @
                 ''==========================================='' @ endl @
                 ''  Parallel Word Frequency Counter (OpenMP)'' @ endl @
                 ''==========================================='' @ endl @
                 ''Input File: '' @ inputFile @ endl @
                 ''Output File: '' @ outputFile @ endl @
                 ''Top N Words: '' @ show_int 100 @ endl @
                 ''Threads: '' @ show_nat max_threads @ endl @
                 ''Sync Mode: '' @ ''reduction'' @ endl @
                 ''-------------------------------------------'' @ endl @
                 ''Processing file...'' @ endl\<rparr>"
  obtain m c w2 where r: "par_countWordsFromFile_run max_threads st en ?p w1 inputFile = (m, c, w2)"
    by (cases "par_countWordsFromFile_run max_threads st en ?p w1 inputFile")
  with par_countWordsFromFile_run_valid [OF assms, of st en ?p w1 inputFile]
  have "par_countWordsFromFile max_threads st en ?p w1 inputFile (m, c, w2)" by simp
  from par_main.run [of ?args inputFile outputFile stoi 100 0 "''reduction''" max_threads
                        max_threads w1 w st en m c w2 show_fixed2 show_fixed4 std_sort program,
                     OF _ _ _ _ _ _ _ w1_def this]
  show ?thesis by auto
qed

text \<open>
  C8. When the output file cannot be opened for writing, \<open>saveResults\<close> writes the
  message \<open>Error: Cannot create output file\<close> with the file name to \<open>std::cerr\<close>
  and returns: no file is written or changed and nothing goes to \<open>std::cout\<close>. The
  program goes on after the call: the rest of \<open>main\<close> writes its closing lines and
  returns the exit code 0. So do both programs as a whole, called with an input file
  that holds at least one word and an output file that cannot be opened: they return 0,
  with the files as they were and the one message on \<open>std::cerr\<close>.
\<close>

theorem cannot_open_output:
  "\<not> writable w filename \<longrightarrow>
     saveResults show_fixed2 std_sort this w wordMap filename topN =
       w\<lparr>cerr := cerr w @ ''Error: Cannot create output file '' @ filename @ endl\<rparr> \<and>
     files (saveResults show_fixed2 std_sort this w wordMap filename topN) = files w \<and>
     cout (saveResults show_fixed2 std_sort this w wordMap filename topN) = cout w \<and>
     (wordMap \<noteq> [] \<longrightarrow>
        fst (main_tail show_fixed2 show_fixed4 std_sort this wordMap w filename topN) = 0 \<and>
        files (snd (main_tail show_fixed2 show_fixed4 std_sort this wordMap w filename topN)) =
          files w \<and>
        cerr (snd (main_tail show_fixed2 show_fixed4 std_sort this wordMap w filename topN)) =
          cerr w @ ''Error: Cannot create output file '' @ filename @ endl \<and>
        (\<exists>before.
           cout (snd (main_tail show_fixed2 show_fixed4 std_sort this wordMap w filename topN)) =
             before @ endl @ ''Processing complete!'' @ endl @
             ''==========================================='' @ endl)) \<and>
     (files w inputFile = Some content \<longrightarrow> counted_words (read_words content) \<noteq> [] \<longrightarrow>
        (\<exists>w'. seq_main stoi show_fixed2 show_fixed4 std_sort st en w program
                 [inputFile, filename] = Some (0, w') \<and>
              files w' = files w \<and>
              cerr w' = cerr w @ ''Error: Cannot create output file '' @ filename @ endl)) \<and>
     (files w inputFile = Some content \<longrightarrow>
      counted_words (iterations (read_words content)) \<noteq> [] \<longrightarrow>
        (0 < max_threads \<longrightarrow>
           (\<exists>r. par_main stoi show_fixed2 show_fixed4 std_sort max_threads st en w program
                  [inputFile, filename] r)) \<and>
        (par_main stoi show_fixed2 show_fixed4 std_sort max_threads st en w program
           [inputFile, filename] r \<longrightarrow>
           (\<exists>w'. r = Some (0, w') \<and> files w' = files w \<and>
                 cerr w' = cerr w @ ''Error: Cannot create output file '' @ filename @ endl)))"
  using saveResults_unwritable [of w filename show_fixed2 std_sort this wordMap topN]
        main_tail_unwritable [of w filename wordMap show_fixed2 show_fixed4 std_sort this topN]
        seq_main_unwritable [of w inputFile content filename stoi show_fixed2 show_fixed4
                                std_sort st en program]
        par_main_unwritable [of w inputFile content filename stoi show_fixed2 show_fixed4
                                std_sort max_threads st en program r]
        par_main_returns [of max_threads stoi show_fixed2 show_fixed4 std_sort st en w program
                             inputFile filename]
  by simp

theorem cannot_open_output_witness:
  "\<not> writable \<lparr>files = [''in.txt'' \<mapsto> ''b a b''], writable = (\<lambda>path. False), cout = [], cerr = []\<rparr>
       ''out.txt'' \<and>
   saveResults (\<lambda>x. ''0.00'') sort_desc \<lparr>executionTime = 0, totalWords = 3, uniqueWords = 2\<rparr>
     \<lparr>files = [''in.txt'' \<mapsto> ''b a b''], writable = (\<lambda>path. False), cout = [], cerr = []\<rparr>
     [(''b'', 2), (''a'', 1)] ''out.txt'' 100 =
     \<lparr>files = [''in.txt'' \<mapsto> ''b a b''], writable = (\<lambda>path. False), cout = [],
        cerr = ''Error: Cannot create output file out.txt'' @ [CHR 0x0A]\<rparr> \<and>
   [(''b'', 2), (''a'', 1 :: u64)] \<noteq> [] \<and>
   fst (main_tail (\<lambda>x. ''0.00'') (\<lambda>x. ''0.0000'') sort_desc
          \<lparr>executionTime = 0, totalWords = 3, uniqueWords = 2\<rparr> [(''b'', 2), (''a'', 1)]
          \<lparr>files = [''in.txt'' \<mapsto> ''b a b''], writable = (\<lambda>path. False), cout = [], cerr = []\<rparr>
          ''out.txt'' 100) = 0 \<and>
   files \<lparr>files = [''in.txt'' \<mapsto> ''b a b''], writable = (\<lambda>path. False), cout = [], cerr = []\<rparr>
     ''in.txt'' = Some ''b a b'' \<and>
   counted_words (read_words ''b a b'') \<noteq> [] \<and>
   counted_words (iterations (read_words ''b a b'')) \<noteq> [] \<and>
   (0::nat) < 2 \<and>
   (\<exists>w'. seq_main (\<lambda>a. None) (\<lambda>x. ''0.00'') (\<lambda>x. ''0.0000'') sort_desc 0 1
            \<lparr>files = [''in.txt'' \<mapsto> ''b a b''], writable = (\<lambda>path. False), cout = [], cerr = []\<rparr>
            ''counter'' [''in.txt'', ''out.txt''] = Some (0, w') \<and>
         cerr w' = ''Error: Cannot create output file out.txt'' @ [CHR 0x0A]) \<and>
   (\<exists>r w'. par_main (\<lambda>a. None) (\<lambda>x. ''0.00'') (\<lambda>x. ''0.0000'') sort_desc 2 0 1
            \<lparr>files = [''in.txt'' \<mapsto> ''b a b''], writable = (\<lambda>path. False), cout = [], cerr = []\<rparr>
            ''counter'' [''in.txt'', ''out.txt''] r \<and>
          r = Some (0, w') \<and>
          cerr w' = ''Error: Cannot create output file out.txt'' @ [CHR 0x0A])"
proof -
  let ?w = "\<lparr>files = [''in.txt'' \<mapsto> ''b a b''], writable = (\<lambda>path. False), cout = [], cerr = []\<rparr>"
  let ?main = "par_main (\<lambda>a. None) (\<lambda>x. ''0.00'') (\<lambda>x. ''0.0000'') sort_desc 2 0 1 ?w
                 ''counter'' [''in.txt'', ''out.txt'']"
  have h1: "\<not> writable ?w ''out.txt''"
    by simp
  have h2: "files ?w ''in.txt'' = Some ''b a b''"
    by simp
  have h3: "counted_words (read_words ''b a b'') \<noteq> []"
    by code_simp
  have h4: "counted_words (iterations (read_words ''b a b'')) \<noteq> []"
    by code_simp
  note T = cannot_open_output
             [of ?w "''out.txt''" "\<lambda>x. ''0.00''" sort_desc
                 "\<lparr>executionTime = 0, totalWords = 3, uniqueWords = 2\<rparr>"
                 "[(''b'', 2), (''a'', 1)]" 100 "\<lambda>x. ''0.0000''" "''in.txt''" "''b a b''"
                 "\<lambda>a. None" 0 1 "''counter''" 2]
  from T h1 h2 h4 obtain r where r: "?main r"
    by auto
  from T [of r] h1 h2 h3 h4 r
  have "\<exists>w'. r = Some (0, w') \<and> cerr w' = ''Error: Cannot create output file out.txt'' @ [CHR 0x0A]"
    by (auto simp: endl_def)
  with r have "\<exists>r w'. ?main r \<and> r = Some (0, w') \<and>
                 cerr w' = ''Error: Cannot create output file out.txt'' @ [CHR 0x0A]"
    by blast
  with T [of r] h1 h2 h3 h4 show ?thesis
    by (auto simp: endl_def)
qed

section \<open>Sizes beyond the range of int\<close>


lemma isspace_a: "\<not> isspace CHR ''a''" "isspace CHR '' ''"
  by (simp_all add: isspace_def)

lemma read_word_space: "isspace c \<Longrightarrow> read_word (c # s) = read_word s"
  by (simp add: read_word_def)

lemma read_words_space: "isspace c \<Longrightarrow> read_words (c # s) = read_words s"
  by (subst read_words.simps, subst (2) read_words.simps) (simp add: read_word_space)

lemma read_words_a: "read_words (''a '' @ s) = ''a'' # read_words s"
proof -
  have "read_word (''a '' @ s) = Some (''a'', CHR '' '' # s)"
    by (simp add: read_word_def isspace_a)
  then have "read_words (''a '' @ s) = ''a'' # read_words (CHR '' '' # s)"
    by (rule read_words_Some)
  then show ?thesis by (simp add: read_words_space isspace_a)
qed

lemma read_words_Nil: "read_words [] = []"
  by (rule read_words_None) (simp add: read_word_def)

lemma read_words_replicate: "read_words (concat (replicate n ''a '')) = replicate n ''a''"
proof (induction n)
  case 0
  then show ?case by (simp add: read_words_Nil)
next
  case (Suc n)
  have "concat (replicate (Suc n) ''a '') = ''a '' @ concat (replicate n ''a '')" by simp
  then show ?case using Suc by (simp only: read_words_a replicate_Suc)
qed

lemma normalize_a: "normalizeWord ''a'' = ''a''"
  by code_simp

lemma counted_words_replicate: "counted_words (replicate n ''a'') = replicate n ''a''"
  by (simp add: counted_words_def normalize_a)

lemma size_to_int_2_31: "size_to_int 2147483648 = - 2147483648"
  by (simp add: size_to_int_eq)

lemma count_list_replicate: "count_list (replicate n x) x = n"
  by (induction n) simp_all

lemma iterations_2_31: "length rawWords = 2 ^ 31 \<Longrightarrow> iterations rawWords = []"
  by (simp add: iterations_def size_to_int_2_31)

lemma keys_empty: "keys m = {} \<Longrightarrow> m = []"
  by (simp add: keys_def)

lemma singleton_map:
  assumes "distinct (map fst m)" "keys m = {k}"
  shows "m = [(k, count_of m k)]"
proof (cases m)
  case Nil
  with assms show ?thesis by simp
next
  case (Cons e m')
  obtain k' c where e: "e = (k', c)" by (cases e)
  from assms(2) Cons e have k': "k' = k" and sub: "keys m' \<subseteq> {k}" by (auto simp: keys_def)
  from assms(1) Cons e k' have "k \<notin> keys m'" by (simp add: keys_def)
  with sub have "keys m' = {}" by auto
  then have "m' = []" by (rule keys_empty)
  with Cons e k' show ?thesis by (simp add: count_of_def)
qed

lemma seq_big:
  "seq_countWords st en c (concat (replicate (2 ^ 31) ''a '')) =
     ([(''a'', 2147483648)],
      c\<lparr>totalWords := 2147483648, uniqueWords := 1, executionTime := en - st\<rparr>)"
proof -
  let ?t = "concat (replicate (2 ^ 31) ''a '')"
  obtain m c' where r: "seq_countWords st en c ?t = (m, c')" by (cases "seq_countWords st en c ?t")
  have ws: "counted_words (read_words ?t) = replicate (2 ^ 31) ''a''"
    by (simp only: read_words_replicate counted_words_replicate)
  note R = seq_countWords_result [OF r, unfolded ws]
  from R(1) have k: "keys m = {''a''}" by simp
  from R(2) [of "''a''"] have c: "count_of m ''a'' = 2147483648"
    by (simp add: count_list_replicate)
  from singleton_map [OF R(3) k] c have m: "m = [(''a'', 2147483648)]" by simp
  from R(4) m have "c' = c\<lparr>totalWords := 2147483648, uniqueWords := 1, executionTime := en - st\<rparr>"
    by simp
  with r m show ?thesis by simp
qed

lemma par_big:
  assumes "par_countWords n st en p (concat (replicate (2 ^ 31) ''a '')) r"
  shows "r = ([], p\<lparr>totalWords := 0, uniqueWords := 0, executionTime := en - st\<rparr>)"
proof -
  let ?t = "concat (replicate (2 ^ 31) ''a '')"
  obtain m p' where r: "r = (m, p')" by (cases r)
  have "iterations (read_words ?t) = []"
    by (rule iterations_2_31) (simp add: read_words_replicate)
  then have ws: "counted_words (iterations (read_words ?t)) = []" by simp
  note R = par_countWords_result [OF assms [unfolded r], unfolded ws]
  from R(1) have m: "m = []" by (simp add: keys_empty)
  with R(4) r show ?thesis by simp
qed

lemma parallel_equals_sequential_below_int_max:
  assumes "length (read_words text) < 2 ^ 31"
    and "seq_countWords st en c text = (m, c')"
    and "par_countWords n st' en' p text (pm, p')"
  shows "map_of pm = map_of m \<and> length pm = length m \<and>
         totalWords p' = totalWords c' \<and> uniqueWords p' = uniqueWords c'"
proof -
  from assms(1) have i: "iterations (read_words text) = read_words text"
    by (rule iterations_small)
  note s = seq_countWords_result [OF assms(2)]
  note r = par_countWords_result [OF assms(3), unfolded i]
  from r(1,2) s(1,2) have "map_of pm = map_of m" by (intro same_map) simp_all
  moreover from r(1,3) s(1,3) have l: "length pm = length m" by (simp add: length_card_keys)
  moreover from r(4) s(4) l have "totalWords p' = totalWords c'" "uniqueWords p' = uniqueWords c'"
    by simp_all
  ultimately show ?thesis by simp
qed

text \<open>
  C2. For every input text and every number of threads the frequency map, the total
  and the number of unique words of the parallel counter are to equal those of the
  sequential counter. At a text of \<open>2^31\<close> words \<open>a\<close> they do not: the sequential
  counter counts them all, but in the parallel counter the loop bound
  \<open>static_cast<int>(rawWords.size())\<close> is negative, no thread runs an iteration, and
  every run returns the empty map and the total 0. (Below \<open>2^31\<close> words every parallel
  run agrees with the sequential counter: \<open>parallel_equals_sequential_below_int_max\<close>.)
\<close>

theorem parallel_counts_nothing_of_2_31_words:
  "seq_countWords 0 1 new_WordCounterSequential (concat (replicate (2 ^ 31) ''a '')) =
     ([(''a'', 2147483648)],
      \<lparr>executionTime = 1, totalWords = 2147483648, uniqueWords = 1\<rparr>) \<and>
   {r. par_countWords 4 0 1 (new_WordCounterParallel Reduction)
         (concat (replicate (2 ^ 31) ''a '')) r} =
     {([], \<lparr>executionTime = 1, totalWords = 0, uniqueWords = 0, syncMethod = Reduction\<rparr>)}"
proof -
  let ?t = "concat (replicate (2 ^ 31) ''a '')"
  let ?p = "new_WordCounterParallel Reduction"
  let ?r = "([], \<lparr>executionTime = 1, totalWords = 0, uniqueWords = 0, syncMethod = Reduction\<rparr>)
            :: WordMap \<times> WordCounterParallel"
  have s: "seq_countWords 0 1 new_WordCounterSequential ?t =
     ([(''a'', 2147483648)], \<lparr>executionTime = 1, totalWords = 2147483648, uniqueWords = 1\<rparr>)"
    by (simp only: seq_big) (simp add: new_WordCounterSequential_def)
  have u: "r = ?r" if "par_countWords 4 0 1 ?p ?t r" for r
    using par_big [OF that] by (simp add: new_WordCounterParallel_def)
  obtain r where r: "par_countWords 4 0 1 ?p ?t r"
    using par_countWords_exists [of 4 0 1 ?p ?t] by auto
  with u have "par_countWords 4 0 1 ?p ?t ?r" by blast
  with u have "{r. par_countWords 4 0 1 ?p ?t r} = {?r}" by blast
  with s show ?thesis by (rule conjI)
qed


section \<open>getTopWords\<close>


lemma mset_insert_desc: "mset (insert_desc a bs) = add_mset a (mset bs)"
  by (induction bs) simp_all

lemma mset_sort_desc: "mset (sort_desc xs) = mset xs"
  unfolding sort_desc_def by (induction xs) (simp_all add: mset_insert_desc)

lemma set_insert_desc: "set (insert_desc a bs) = insert a (set bs)"
  by (induction bs) auto

lemma descending_insert_desc: "descending bs \<Longrightarrow> descending (insert_desc a bs)"
  unfolding descending_def
  by (induction bs) (auto simp: set_insert_desc not_less)

lemma descending_sort_desc: "descending (sort_desc xs)"
  unfolding sort_desc_def
  by (induction xs) (simp_all add: descending_insert_desc, simp add: descending_def)

lemma sort_post_sort_desc: "sort_post sort_desc xs"
  by (simp add: sort_post_def mset_sort_desc descending_sort_desc)

lemma descending_take: "descending xs \<Longrightarrow> descending (take k xs)"
  unfolding descending_def by (rule sorted_wrt_take)

lemma getTopWords_below_int_max:
  assumes "sort_post std_sort wordMap" "length wordMap < 2 ^ 31"
  shows "descending (getTopWords std_sort wordMap n)"
    and "0 < n \<and> n < int (length wordMap) \<Longrightarrow>
           getTopWords std_sort wordMap n = take (nat n) (std_sort wordMap) \<and>
           length (getTopWords std_sort wordMap n) = nat n"
    and "\<not> (0 < n \<and> n < int (length wordMap)) \<Longrightarrow>
           getTopWords std_sort wordMap n = std_sort wordMap \<and>
           mset (getTopWords std_sort wordMap n) = mset wordMap"
proof -
  from assms(1) have l: "length (std_sort wordMap) = length wordMap"
    by (metis sort_post_def size_mset)
  from assms(2) have s: "size_to_int (length wordMap) = int (length wordMap)"
    by (simp add: size_to_int_small)
  from assms(1) show "descending (getTopWords std_sort wordMap n)"
    by (simp add: getTopWords_def Let_def sort_post_def descending_take)
  show "getTopWords std_sort wordMap n = take (nat n) (std_sort wordMap) \<and>
        length (getTopWords std_sort wordMap n) = nat n"
    if "0 < n \<and> n < int (length wordMap)"
    using that l by (auto simp add: getTopWords_def Let_def s)
  show "getTopWords std_sort wordMap n = std_sort wordMap \<and>
        mset (getTopWords std_sort wordMap n) = mset wordMap"
    if "\<not> (0 < n \<and> n < int (length wordMap))"
    using that assms(1) l by (auto simp add: getTopWords_def Let_def s sort_post_def)
qed

lemma three_entries:
  assumes "mset ys = {#p, q, r#}"
  shows "ys \<in> {[p, q, r], [p, r, q], [q, p, r], [q, r, p], [r, p, q], [r, q, p]}"
proof -
  from assms have "length ys = 3" by (metis size_mset size_add_mset size_empty numeral_3_eq_3)
  then obtain x y z where ys: "ys = [x, y, z]"
    by (auto simp: length_Suc_conv numeral_3_eq_3)
  from assms show ?thesis unfolding ys
    by (auto simp: add_eq_conv_ex)
qed

lemma getTopWords_example:
  assumes "mset wordMap = {#(''a'', 5), (''b'', 3), (''c'', 3)#}" "sort_post std_sort wordMap"
  shows "getTopWords std_sort wordMap 2 = [(''a'', 5), (''b'', 3)] \<or>
         getTopWords std_sort wordMap 2 = [(''a'', 5), (''c'', 3)]"
proof -
  from assms have m: "mset (std_sort wordMap) = {#(''a'', 5), (''b'', 3), (''c'', 3 :: u64)#}"
    and d: "descending (std_sort wordMap)"
    by (simp_all add: sort_post_def)
  from three_entries [OF m] d
  have "std_sort wordMap = [(''a'', 5), (''b'', 3), (''c'', 3)] \<or>
        std_sort wordMap = [(''a'', 5), (''c'', 3), (''b'', 3)]"
    by (auto simp: descending_def)
  moreover have "size_to_int (Suc (Suc (Suc 0))) = 3"
    by (simp add: size_to_int_small)
  ultimately show ?thesis by (auto simp: getTopWords_def Let_def)
qed

lemma length_many_words: "length many_words = 2147483648"
  unfolding many_words_def by (simp only: length_map length_upt) simp

lemma distinct_many_words: "distinct (map fst many_words)"
proof -
  have "map fst many_words = map (\<lambda>i. replicate (Suc i) CHR ''a'') [0..<2 ^ 31]"
    unfolding many_words_def by (simp only: map_map comp_def fst_conv)
  moreover have "inj_on (\<lambda>i. replicate (Suc i) CHR ''a'') (set [0..<2 ^ 31])"
    by (rule inj_onI) (metis length_replicate old.nat.inject)
  ultimately show ?thesis by (simp only: distinct_map distinct_upt)
qed

lemma length_sort_post: "sort_post std_sort wordMap \<Longrightarrow> length (std_sort wordMap) = length wordMap"
  by (metis sort_post_def size_mset)

text \<open>
  C6. \<open>getTopWords\<close> is to return the entries of the map in descending order of
  count, cut to the first \<open>n\<close> exactly when \<open>0 < n\<close> and \<open>n\<close> is less than the size of
  the map. At a map of \<open>2^31\<close> entries and \<open>n = 1\<close> the first entry alone is due, but
  the size converted to \<open>int\<close> is negative, the test
  \<open>n < static_cast<int>(wordVec.size())\<close> fails, and all \<open>2^31\<close> entries are returned.
  (Below \<open>2^31\<close> entries the function does what is claimed, for every sort that meets
  the postcondition of \<open>std::sort\<close>: \<open>getTopWords_below_int_max\<close>; on the map
  a: 5, b: 3, c: 3 with \<open>n = 2\<close>: \<open>getTopWords_example\<close>.)
\<close>

theorem getTopWords_keeps_all_of_2_31_entries:
  "distinct (map fst many_words) \<and> length many_words = 2147483648 \<and>
   getTopWords sort_desc many_words 1 = sort_desc many_words \<and>
   length (getTopWords sort_desc many_words 1) = 2147483648"
proof -
  have l: "length (sort_desc many_words) = 2147483648"
    by (simp only: length_sort_post [OF sort_post_sort_desc] length_many_words)
  have "getTopWords sort_desc many_words 1 = sort_desc many_words"
    by (simp add: getTopWords_def Let_def l size_to_int_2_31)
  with l show ?thesis
    by (simp only: distinct_many_words length_many_words)
qed

end
